theory Spec2Isabelle
  imports Main "HOL-Library.Word"
begin

section \<open>The session of server/session.go\<close>

text \<open>
  One call of a method of \<open>session\<close> is a function from the session's state to an
  outcome. The calls are taken one at a time: \<open>s.Lock()\<close> and \<open>s.Unlock()\<close> delimit
  the critical sections of the source and are marked in the definitions by comments.
  What a call does to its collaborators (the registry, the connection, the logger, the
  handler) and to the timer and the queue is appended, in program order, to the field
  \<open>trace\<close>.
\<close>

subsection \<open>Data\<close>

type_synonym byte = "8 word"
type_synonym payload = "byte list"
type_synonym uuid = "128 word"
type_synonym duration = "64 word"
type_synonym error = string

text \<open>An instant of the wall clock, in nanoseconds; \<open>time.Now().Add(d)\<close> is \<open>now + sint d\<close>.\<close>

type_synonym instant = int

text \<open>The outcome of a call: it returns a value, it blocks, or it panics.\<close>

datatype ('a, 's) exec = Returns 'a 's | Blocks 's | Panics 's

fun state_of :: "('a, 's) exec \<Rightarrow> 's" where
  "state_of (Returns a s) = s"
| "state_of (Blocks s) = s"
| "state_of (Panics s) = s"

datatype 'e event =
    RegistryRemove uuid
  | TimerStop
  | TimerDrain
  | TimerReset duration
  | GateCAS "32 word" "32 word" bool
  | ChanClose
  | SetReadLimit int
  | SetReadDeadline instant
  | SetPongHandler
  | GoProcessOutgoing
  | WriteControlClose payload instant
  | ConnClose
  | HandlerCall 'e
  | Log string
  | LogErr string error
  | LogId string uuid

text \<open>
  \<open>time.Timer\<close> of the Go library: \<open>active\<close> while it is armed, \<open>tick\<close> while a
  fired and unconsumed value sits in its channel \<open>C\<close>, \<open>period\<close> the duration it was
  last armed with. \<open>Stop\<close> reports whether the call stopped an armed timer.
\<close>

record timer =
  active :: bool
  tick :: bool
  period :: duration

definition timer_NewTimer :: "duration \<Rightarrow> timer" where
  "timer_NewTimer d = \<lparr>active = True, tick = False, period = d\<rparr>"

definition timer_Stop :: "timer \<Rightarrow> bool \<times> timer" where
  "timer_Stop t = (active t, t\<lparr>active := False\<rparr>)"

definition timer_Reset :: "duration \<Rightarrow> timer \<Rightarrow> timer" where
  "timer_Reset d t = t\<lparr>active := True, period := d\<rparr>"

text \<open>
  A buffered Go channel of payloads, of capacity 1 or more: a send proceeds while the
  buffer has room, a send on a closed channel and a second \<open>close\<close> panic. A channel
  of capacity 0 has no buffer: there a send proceeds only by meeting a receiver that
  waits, which this record does not hold. What is proved of the sends is proved for a
  positive capacity.
\<close>

record chan =
  buf :: "payload list"
  cap :: nat
  chClosed :: bool

definition chan_full :: "chan \<Rightarrow> bool" where
  "chan_full c = (cap c \<le> length (buf c))"

definition chan_push :: "payload \<Rightarrow> chan \<Rightarrow> chan" where
  "chan_push p c = c\<lparr>buf := buf c @ [p]\<rparr>"

text \<open>
  The receive \<open><-c\<close> of the writer task: the oldest payload, or the zero value
  from a closed and empty channel; \<open>None\<close> when the receive has to wait.
\<close>

definition chan_recv :: "chan \<Rightarrow> (payload \<times> chan) option" where
  "chan_recv c =
     (case buf c of
        p # ps \<Rightarrow> Some (p, c\<lparr>buf := ps\<rparr>)
      | [] \<Rightarrow> if chClosed c then Some ([], c) else None)"

text \<open>
  The connection is a collaborator: the model holds what its calls answer
  (\<open>None\<close> for a nil error) and the clock that \<open>time.Now()\<close> reads.
\<close>

record conn =
  clock :: instant
  setReadDeadlineErr :: "error option"
  writeControlErr :: "error option"
  closeErr :: "error option"

text \<open>
  Modelled from the spec: the type \<open>Config\<close> is declared outside the given sources;
  its socket options are the five of the specification's configuration section, Go
  \<open>int\<close>s of 64 bits.
\<close>

record socket_config =
  PingPeriodTime :: "64 word"
  PongWaitTime :: "64 word"
  WriteWaitTime :: "64 word"
  ReceivedMessageDecrementCount :: "64 word"
  OutgoingQueueSize :: "64 word"

text \<open>
  The struct \<open>session\<close>. The envelope type \<open>'e\<close> and the two codecs are those of the
  wire codec: the marshaller answers an error or the bytes, the unmarshaller answers
  its error together with the envelope it leaves in \<open>request\<close>. The registry and the
  game holder appear only through the trace.
\<close>

record 'e session =
  id_uuid :: uuid
  userID :: string
  username :: string
  expiry :: "64 word"
  clientIP :: string
  clientPort :: string
  pingPeriodTime :: duration
  pongWaitTime :: duration
  writeWaitTime :: duration
  config :: socket_config
  conn :: conn
  jsonProtoMarshler :: "'e \<Rightarrow> error + payload"
  jsonProtoUnmarshler :: "payload \<Rightarrow> error option \<times> 'e"
  receivedMsgDecrement :: "64 word"
  pingTimer :: timer
  pingTimerCas :: "32 word"
  outgoingCh :: chan
  closed :: bool
  trace :: "'e event list"

definition emit :: "'e event \<Rightarrow> 'e session \<Rightarrow> 'e session" where
  "emit ev s = s\<lparr>trace := trace s @ [ev]\<rparr>"

definition now :: "'e session \<Rightarrow> instant" where
  "now s = clock (conn s)"

subsection \<open>Construction and accessors\<close>

text \<open>
  \<open>NewSession\<close>; the fresh identity is an argument. \<open>make\<close> panics with
  \<open>size out of range\<close> on a negative queue size and on one beyond what the runtime
  can allocate; that bound depends on the platform and is the argument \<open>maxChan\<close>.
  The panic is the answer \<open>None\<close>.
\<close>

definition NewSession ::
  "int \<Rightarrow> uuid \<Rightarrow> string \<Rightarrow> string \<Rightarrow> 64 word \<Rightarrow> string \<Rightarrow> string \<Rightarrow> conn \<Rightarrow> socket_config \<Rightarrow>
   ('e \<Rightarrow> error + payload) \<Rightarrow> (payload \<Rightarrow> error option \<times> 'e) \<Rightarrow> 'e session option" where
  "NewSession maxChan sessionID uid uname exp ip port c cfg m u =
     (if sint (OutgoingQueueSize cfg) < 0 \<or> maxChan < sint (OutgoingQueueSize cfg) then None
      else Some \<lparr>
        id_uuid = sessionID,
        userID = uid,
        username = uname,
        expiry = exp,
        clientIP = ip,
        clientPort = port,
        pingPeriodTime = PingPeriodTime cfg * 1000000,
        pongWaitTime = PongWaitTime cfg * 1000000,
        writeWaitTime = WriteWaitTime cfg * 1000000,
        config = cfg,
        conn = c,
        jsonProtoMarshler = m,
        jsonProtoUnmarshler = u,
        receivedMsgDecrement = ReceivedMessageDecrementCount cfg,
        pingTimer = timer_NewTimer (PingPeriodTime cfg * 1000000),
        pingTimerCas = 1,
        outgoingCh = \<lparr>buf = [], cap = nat (sint (OutgoingQueueSize cfg)), chClosed = False\<rparr>,
        closed = False,
        trace = []\<rparr>)"

definition ID :: "'e session \<Rightarrow> uuid" where
  "ID s = id_uuid s"

definition UserID :: "'e session \<Rightarrow> string" where
  "UserID s = userID s"

definition ClientIP :: "'e session \<Rightarrow> string" where
  "ClientIP s = clientIP s"

definition ClientPort :: "'e session \<Rightarrow> string" where
  "ClientPort s = clientPort s"

definition Username :: "'e session \<Rightarrow> string" where
  "Username s = username s"

definition SetUsername :: "string \<Rightarrow> 'e session \<Rightarrow> 'e session" where
  "SetUsername name s = s\<lparr>username := name\<rparr>"

definition Expiry :: "'e session \<Rightarrow> 64 word" where
  "Expiry s = expiry s"

subsection \<open>Close\<close>

text \<open>
  The teardown after the flag is set, in the order of the source: registry, timer,
  queue, close frame, connection. The two I/O steps only log their failure.
\<close>

definition close_io :: "'e session \<Rightarrow> 'e session" where
  "close_io s =
     (let s1 = emit (WriteControlClose [] (now s + sint (writeWaitTime s))) s;
          s2 = (if writeControlErr (conn s1) \<noteq> None
                then emit (Log ''Couldn't send close message to client'') s1 else s1);
          s3 = emit ConnClose s2
      in if closeErr (conn s3) \<noteq> None
         then emit (LogId ''Couldn't close socket connection for session id: '' (id_uuid s3)) s3
         else s3)"

definition Close :: "'e session \<Rightarrow> (unit, 'e session) exec" where
  "Close s =
     \<comment> \<open>Lock\<close>
     (if closed s then \<comment> \<open>Unlock\<close> Returns () s
      else
        let s1 = s\<lparr>closed := True\<rparr>;
            \<comment> \<open>Unlock\<close>
            s2 = emit (RegistryRemove (id_uuid s1)) s1;
            s3 = emit TimerStop (s2\<lparr>pingTimer := snd (timer_Stop (pingTimer s2))\<rparr>)
        in if chClosed (outgoingCh s3) then Panics s3
           else
             let s4 = emit ChanClose (s3\<lparr>outgoingCh := (outgoingCh s3)\<lparr>chClosed := True\<rparr>\<rparr>)
             in Returns () (close_io s4))"

subsection \<open>The keep-alive re-arm\<close>

text \<open>
  \<open>pingTimerCas.CAS(old, new)\<close>: the gate is free at 1 and claimed at 0. The trace
  records every call with its answer.
\<close>

definition gate_CAS :: "32 word \<Rightarrow> 32 word \<Rightarrow> 'e session \<Rightarrow> bool \<times> 'e session" where
  "gate_CAS old new s =
     (if pingTimerCas s = old
      then (True, emit (GateCAS old new True) (s\<lparr>pingTimerCas := new\<rparr>))
      else (False, emit (GateCAS old new False) s))"

text \<open>
  The timer part of the critical section: \<open>Stop\<close>, and when it reports false the
  non-blocking receive from \<open>pingTimer.C\<close>, then \<open>Reset(pingPeriodTime)\<close>.
\<close>

definition stop_drain_reset :: "'e session \<Rightarrow> 'e session" where
  "stop_drain_reset s =
     (let (stopped, t1) = timer_Stop (pingTimer s);
          s1 = emit TimerStop (s\<lparr>pingTimer := t1\<rparr>);
          s2 = (if \<not> stopped \<and> tick (pingTimer s1)
                then emit TimerDrain (s1\<lparr>pingTimer := (pingTimer s1)\<lparr>tick := False\<rparr>\<rparr>)
                else s1)
      in emit (TimerReset (pingPeriodTime s2))
           (s2\<lparr>pingTimer := timer_Reset (pingPeriodTime s2) (pingTimer s2)\<rparr>))"

text \<open>
  \<open>resetPingTimer\<close>. The deferred \<open>CAS(0, 1)\<close> runs on every exit after the gate
  was claimed, also after the \<open>Close\<close> of the failure path.
\<close>

definition resetPingTimer :: "'e session \<Rightarrow> (bool, 'e session) exec" where
  "resetPingTimer s =
     (let (claimed, s0) = gate_CAS 1 0 s
      in if \<not> claimed then Returns True s0
         else
          \<comment> \<open>Lock\<close>
          if closed s0 then \<comment> \<open>Unlock\<close> Returns False (snd (gate_CAS 0 1 s0))
          else
            let s1 = stop_drain_reset s0;
                s2 = emit (SetReadDeadline (now s1 + sint (pongWaitTime s1))) s1
                \<comment> \<open>Unlock\<close>
            in case setReadDeadlineErr (conn s2) of
                 None \<Rightarrow> Returns True (snd (gate_CAS 0 1 s2))
               | Some err \<Rightarrow>
                   (case Close (emit (LogErr
                       ''Error while trying to set read deadline on socket connection'' err) s2) of
                      Returns _ s3 \<Rightarrow> Returns False (snd (gate_CAS 0 1 s3))
                    | Blocks s3 \<Rightarrow> Blocks s3
                    | Panics s3 \<Rightarrow> Panics (snd (gate_CAS 0 1 s3))))"

subsection \<open>Send and SendBytes\<close>

text \<open>
  \<open>SendBytes\<close>. The stream send \<open>s.outgoingCh <- payload\<close> blocks on a full queue,
  with the lock held: the outcome \<open>Blocks\<close> carries the state at that point, and the
  send goes on from there once a slot is free. The \<open>select\<close> with \<open>default\<close> of the
  other path never blocks.
\<close>

definition SendBytes ::
  "bool \<Rightarrow> 8 word \<Rightarrow> payload \<Rightarrow> 'e session \<Rightarrow> (error option, 'e session) exec" where
  "SendBytes isStream mode p s =
     \<comment> \<open>Lock\<close>
     (if closed s then \<comment> \<open>Unlock\<close> Returns None s
      else if isStream then
        (if chClosed (outgoingCh s) then Panics s
         else if chan_full (outgoingCh s) then Blocks s
         else \<comment> \<open>Unlock\<close> Returns None (s\<lparr>outgoingCh := chan_push p (outgoingCh s)\<rparr>))
      else
        (if chClosed (outgoingCh s) then Panics s
         else if \<not> chan_full (outgoingCh s)
         then \<comment> \<open>Unlock\<close> Returns None (s\<lparr>outgoingCh := chan_push p (outgoingCh s)\<rparr>)
         else
           \<comment> \<open>Unlock\<close>
           (case Close (emit (Log ''Could not write message, session outgoing queue full'') s) of
              Returns _ s1 \<Rightarrow> Returns (Some ''outgoing queue full'') s1
            | Blocks s1 \<Rightarrow> Blocks s1
            | Panics s1 \<Rightarrow> Panics s1)))"

definition Send ::
  "bool \<Rightarrow> 8 word \<Rightarrow> 'e \<Rightarrow> 'e session \<Rightarrow> (error option, 'e session) exec" where
  "Send isStream mode envelope s =
     (case jsonProtoMarshler s envelope of
        Inl err \<Rightarrow> Returns (Some err) (emit (LogErr ''Could not marshal envelope'' err) s)
      | Inr p \<Rightarrow> SendBytes isStream mode p s)"

subsection \<open>Consume\<close>

text \<open>
  What \<open>conn.ReadMessage()\<close> meets on the wire: a data frame, which it returns; a pong
  control frame, for which it runs the installed pong handler and goes on reading; or
  an error, which it returns. A close error carries its code, a \<open>net.OpError\<close> its
  text and the text of its inner error.
\<close>

datatype read_err = CloseError int | OpError string string | OtherError string

datatype inbound = Frame payload | Pong | ReadError read_err

definition log_read_error :: "read_err \<Rightarrow> 'e session \<Rightarrow> 'e session" where
  "log_read_error err s =
     (case err of
        CloseError code \<Rightarrow>
          if code \<in> {1000, 1001, 1005}
          then emit (LogId ''Socket connection was closed id: '' (ID s)) s
          else emit (LogId ''Socket connection was closed id: '' (ID s)) s
      | OtherError txt \<Rightarrow> emit (LogId ''Socket connection was closed id: '' (ID s)) s
      | OpError txt inner \<Rightarrow>
          if inner \<noteq> ''use of closed network connection''
          then emit (LogId ''Socket connection was closed id: '' (ID s)) s
          else emit (LogErr ''Error occured while reading message on socket connection'' txt) s)"

text \<open>The callback given to \<open>SetPongHandler\<close>; it answers nil whatever the re-arm says.\<close>

definition pongHandler :: "'e session \<Rightarrow> (unit, 'e session) exec" where
  "pongHandler s =
     (case resetPingTimer (emit (Log ''pong received'') s) of
        Returns _ s1 \<Rightarrow> Returns () s1
      | Blocks s1 \<Rightarrow> Blocks s1
      | Panics s1 \<Rightarrow> Panics s1)"

text \<open>
  The first half of the loop body, after a frame was read: the counter goes down, and
  below 1 it is restored from the configuration and the re-arm is called. The answer
  false is the \<open>return\<close> of the source.
\<close>

definition throttle :: "'e session \<Rightarrow> (bool, 'e session) exec" where
  "throttle s =
     (let s1 = s\<lparr>receivedMsgDecrement := receivedMsgDecrement s - 1\<rparr>
      in if sint (receivedMsgDecrement s1) < 1
         then resetPingTimer
                (s1\<lparr>receivedMsgDecrement := ReceivedMessageDecrementCount (config s1)\<rparr>)
         else Returns True s1)"

text \<open>
  The second half: the frame is unmarshalled into a fresh envelope, an error is
  logged, and the handler is called with the session and the envelope in either case.
  The handler is represented by the boolean it answers; the answer false is the
  \<open>break\<close>.
\<close>

definition dispatch ::
  "('e session \<Rightarrow> 'e \<Rightarrow> bool) \<Rightarrow> payload \<Rightarrow> 'e session \<Rightarrow> bool \<times> 'e session" where
  "dispatch handlerFunc data s =
     (let (err, request) = jsonProtoUnmarshler s data;
          s1 = (case err of
                  None \<Rightarrow> s
                | Some e \<Rightarrow> emit (LogErr ''Read message error'' e) s);
          s2 = emit (HandlerCall request) s1
      in (handlerFunc s1 request, s2))"

text \<open>
  The \<open>for\<close> loop over what arrives. When nothing more has arrived the read blocks,
  with the session as it is. \<open>Returns\<close> stands for both ways out, \<open>break\<close> and
  \<open>return\<close>: the deferred \<open>Close\<close> follows either.
\<close>

fun consume_loop ::
  "('e session \<Rightarrow> 'e \<Rightarrow> bool) \<Rightarrow> inbound list \<Rightarrow> 'e session \<Rightarrow> (unit, 'e session) exec" where
  "consume_loop handlerFunc [] s = Blocks s"
| "consume_loop handlerFunc (ReadError err # rest) s = Returns () (log_read_error err s)"
| "consume_loop handlerFunc (Pong # rest) s =
     (case pongHandler s of
        Returns _ s1 \<Rightarrow> consume_loop handlerFunc rest s1
      | Blocks s1 \<Rightarrow> Blocks s1
      | Panics s1 \<Rightarrow> Panics s1)"
| "consume_loop handlerFunc (Frame data # rest) s =
     (case throttle s of
        Returns ok s1 \<Rightarrow>
          if \<not> ok then Returns () s1
          else (case dispatch handlerFunc data s1 of
                  (continue, s2) \<Rightarrow>
                    if \<not> continue then Returns () s2
                    else consume_loop handlerFunc rest s2)
      | Blocks s1 \<Rightarrow> Blocks s1
      | Panics s1 \<Rightarrow> Panics s1)"

text \<open>\<open>Consume\<close>, with its deferred \<open>Close\<close> on every way out of the function.\<close>

definition Consume ::
  "('e session \<Rightarrow> 'e \<Rightarrow> bool) \<Rightarrow> inbound list \<Rightarrow> 'e session \<Rightarrow> (unit, 'e session) exec" where
  "Consume handlerFunc arriving s =
     (let s1 = emit (SetReadLimit 4096) s;
          s2 = emit (SetReadDeadline (now s1 + sint (pongWaitTime s1))) s1
      in case setReadDeadlineErr (conn s2) of
           Some err \<Rightarrow>
             Close (emit (LogErr ''Error occured while trying to set read deadline'' err) s2)
         | None \<Rightarrow>
             (case consume_loop handlerFunc arriving
                     (emit GoProcessOutgoing (emit SetPongHandler s2)) of
                Returns _ s3 \<Rightarrow> Close s3
              | Blocks s3 \<Rightarrow> Blocks s3
              | Panics s3 \<Rightarrow>
                  (case Close s3 of
                     Returns _ s4 \<Rightarrow> Panics s4
                   | Blocks s4 \<Rightarrow> Blocks s4
                   | Panics s4 \<Rightarrow> Panics s4)))"

subsection \<open>Observations\<close>

text \<open>The envelopes the handler was called with, in order.\<close>

fun handled :: "'e event list \<Rightarrow> 'e list" where
  "handled [] = []"
| "handled (HandlerCall e # evs) = e # handled evs"
| "handled (ev # evs) = handled evs"

text \<open>The identities the registry was told to forget, in order.\<close>

fun removed :: "'e event list \<Rightarrow> uuid list" where
  "removed [] = []"
| "removed (RegistryRemove u # evs) = u # removed evs"
| "removed (ev # evs) = removed evs"

text \<open>The durations the timer was re-armed with, in order.\<close>

fun rearmed :: "'e event list \<Rightarrow> duration list" where
  "rearmed [] = []"
| "rearmed (TimerReset d # evs) = d # rearmed evs"
| "rearmed (ev # evs) = rearmed evs"

text \<open>The errors of the frames that failed to decode, as the loop logged them, in order.\<close>

fun decode_logged :: "'e event list \<Rightarrow> error list" where
  "decode_logged [] = []"
| "decode_logged (LogErr msg e # evs) =
     (if msg = ''Read message error'' then e # decode_logged evs else decode_logged evs)"
| "decode_logged (ev # evs) = decode_logged evs"

text \<open>
  What the first \<open>Close\<close> of a session adds to the trace: the five steps, and a log
  line after each of the two I/O steps that fails.
\<close>

definition teardown :: "'e session \<Rightarrow> 'e event list" where
  "teardown s =
     [RegistryRemove (id_uuid s), TimerStop, ChanClose,
      WriteControlClose [] (now s + sint (writeWaitTime s))] @
     (if writeControlErr (conn s) = None then []
      else [Log ''Couldn't send close message to client'']) @
     [ConnClose] @
     (if closeErr (conn s) = None then []
      else [LogId ''Couldn't close socket connection for session id: '' (id_uuid s)])"

text \<open>\<open>Close\<close> called \<open>n\<close> times in a row.\<close>

fun Close_times :: "nat \<Rightarrow> 'e session \<Rightarrow> (unit, 'e session) exec" where
  "Close_times 0 s = Returns () s"
| "Close_times (Suc n) s =
     (case Close s of
        Returns _ s1 \<Rightarrow> Close_times n s1
      | Blocks s1 \<Rightarrow> Blocks s1
      | Panics s1 \<Rightarrow> Panics s1)"

text \<open>
  The queue is closed only by \<open>Close\<close>, after the flag is set: in every state that
  the methods reach from \<open>NewSession\<close>, a closed queue belongs to a closed session.
\<close>

definition queue_inv :: "'e session \<Rightarrow> bool" where
  "queue_inv s = (chClosed (outgoingCh s) \<longrightarrow> closed s)"

subsection \<open>A concrete session\<close>

text \<open>
  A session with a queue of two slots and a re-arm every second frame. Its envelopes
  are byte strings; its codec rejects the empty frame and the empty envelope.
\<close>

definition test_config :: socket_config where
  "test_config = \<lparr>PingPeriodTime = 15000, PongWaitTime = 25000, WriteWaitTime = 5000,
     ReceivedMessageDecrementCount = 2, OutgoingQueueSize = 2\<rparr>"

definition test_conn :: conn where
  "test_conn = \<lparr>clock = 1000, setReadDeadlineErr = None, writeControlErr = None,
     closeErr = None\<rparr>"

definition test_marshal :: "payload \<Rightarrow> error + payload" where
  "test_marshal e = (if e = [] then Inl ''empty envelope'' else Inr e)"

definition test_unmarshal :: "payload \<Rightarrow> error option \<times> payload" where
  "test_unmarshal d = (if d = [] then (Some ''unexpected EOF'', []) else (None, d))"

definition test_session :: "payload session" where
  "test_session = \<lparr>
     id_uuid = 7,
     userID = ''u1'',
     username = ''alice'',
     expiry = 0,
     clientIP = ''10.0.0.1'',
     clientPort = ''4242'',
     pingPeriodTime = 15000000000,
     pongWaitTime = 25000000000,
     writeWaitTime = 5000000000,
     config = test_config,
     conn = test_conn,
     jsonProtoMarshler = test_marshal,
     jsonProtoUnmarshler = test_unmarshal,
     receivedMsgDecrement = 2,
     pingTimer = \<lparr>active = True, tick = False, period = 15000000000\<rparr>,
     pingTimerCas = 1,
     outgoingCh = \<lparr>buf = [], cap = 2, chClosed = False\<rparr>,
     closed = False,
     trace = []\<rparr>"

text \<open>The same session with its queue full, and after it was closed.\<close>

definition test_full_session :: "payload session" where
  "test_full_session =
     test_session\<lparr>outgoingCh := \<lparr>buf = [[1], [2]], cap = 2, chClosed = False\<rparr>\<rparr>"

definition test_closed_session :: "payload session" where
  "test_closed_session =
     test_session\<lparr>closed := True,
       outgoingCh := \<lparr>buf = [], cap = 2, chClosed = True\<rparr>\<rparr>"

text \<open>The same session on a connection that refuses a read deadline.\<close>

definition test_broken_session :: "payload session" where
  "test_broken_session =
     test_session\<lparr>conn := test_conn\<lparr>setReadDeadlineErr := Some ''broken pipe''\<rparr>\<rparr>"

text \<open>A handler that goes on after every envelope.\<close>

definition test_handler :: "payload session \<Rightarrow> payload \<Rightarrow> bool" where
  "test_handler s e = True"

section \<open>Properties\<close>

subsection \<open>Shared facts\<close>

lemma Close_closed: "closed s \<Longrightarrow> Close s = Returns () s"
  by (simp add: Close_def)

lemma Close_times_closed: "closed s \<Longrightarrow> Close_times n s = Returns () s"
  by (induction n) (simp_all add: Close_closed)

lemma removed_append: "removed (xs @ ys) = removed xs @ removed ys"
  by (induction xs rule: removed.induct) simp_all

lemma handled_append: "handled (xs @ ys) = handled xs @ handled ys"
  by (induction xs rule: handled.induct) simp_all

lemma rearmed_append: "rearmed (xs @ ys) = rearmed xs @ rearmed ys"
  by (induction xs rule: rearmed.induct) simp_all

lemma decode_logged_append:
  "decode_logged (xs @ ys) = decode_logged xs @ decode_logged ys"
  by (induction xs rule: decode_logged.induct) simp_all

lemma Close_open_facts:
  assumes "\<not> closed s" "\<not> chClosed (outgoingCh s)"
  shows "\<exists>s'. Close s = Returns () s' \<and> closed s' \<and>
           removed (trace s') = removed (trace s) @ [id_uuid s] \<and>
           handled (trace s') = handled (trace s) \<and>
           rearmed (trace s') = rearmed (trace s) \<and>
           buf (outgoingCh s') = buf (outgoingCh s) \<and>
           pingTimerCas s' = pingTimerCas s"
  using assms
  by (simp add: Close_def Let_def emit_def timer_Stop_def close_io_def removed_append
      handled_append rearmed_append)

lemma NewSession_test:
  "NewSession 1024 7 ''u1'' ''alice'' 0 ''10.0.0.1'' ''4242'' test_conn test_config
     test_marshal test_unmarshal = Some test_session"
  by (simp add: NewSession_def test_session_def test_config_def timer_NewTimer_def)

lemma removed_teardown: "removed (teardown s) = [id_uuid s]"
  by (simp add: teardown_def)

lemma Close_open_eq:
  assumes "\<not> closed s" "\<not> chClosed (outgoingCh s)"
  shows "Close s = Returns ()
           (s\<lparr>closed := True,
              pingTimer := (pingTimer s)\<lparr>active := False\<rparr>,
              outgoingCh := (outgoingCh s)\<lparr>chClosed := True\<rparr>,
              trace := trace s @ teardown s\<rparr>)"
  using assms
  by (simp add: Close_def Let_def emit_def timer_Stop_def close_io_def now_def teardown_def)

lemma stop_drain_reset_eq:
  "stop_drain_reset s =
     s\<lparr>pingTimer := \<lparr>active = True,
                       tick = (active (pingTimer s) \<and> tick (pingTimer s)),
                       period = pingPeriodTime s\<rparr>,
        trace := trace s @ [TimerStop] @
          (if \<not> active (pingTimer s) \<and> tick (pingTimer s) then [TimerDrain] else []) @
          [TimerReset (pingPeriodTime s)]\<rparr>"
  by (cases "pingTimer s")
     (simp add: stop_drain_reset_def Let_def emit_def timer_Stop_def timer_Reset_def)

lemma gate_claim:
  "pingTimerCas s = 1 \<Longrightarrow>
   gate_CAS 1 0 s = (True, s\<lparr>pingTimerCas := 0, trace := trace s @ [GateCAS 1 0 True]\<rparr>)"
  by (simp add: gate_CAS_def emit_def)

lemma gate_busy:
  "pingTimerCas s \<noteq> 1 \<Longrightarrow>
   gate_CAS 1 0 s = (False, s\<lparr>trace := trace s @ [GateCAS 1 0 False]\<rparr>)"
  by (simp add: gate_CAS_def emit_def)

lemma gate_release:
  "pingTimerCas s = 0 \<Longrightarrow>
   snd (gate_CAS 0 1 s) = s\<lparr>pingTimerCas := 1, trace := trace s @ [GateCAS 0 1 True]\<rparr>"
  by (simp add: gate_CAS_def emit_def)

lemma resetPingTimer_busy:
  "pingTimerCas s \<noteq> 1 \<Longrightarrow>
   resetPingTimer s = Returns True (s\<lparr>trace := trace s @ [GateCAS 1 0 False]\<rparr>)"
  by (simp add: resetPingTimer_def gate_busy)

lemma resetPingTimer_closed:
  "pingTimerCas s = 1 \<Longrightarrow> closed s \<Longrightarrow>
   resetPingTimer s = Returns False
     (s\<lparr>pingTimerCas := 1, trace := trace s @ [GateCAS 1 0 True, GateCAS 0 1 True]\<rparr>)"
  by (simp add: resetPingTimer_def gate_claim gate_release)

lemma resetPingTimer_ok:
  assumes "pingTimerCas s = 1" "\<not> closed s" "setReadDeadlineErr (conn s) = None"
  shows "resetPingTimer s = Returns True
        (s\<lparr>pingTimer := \<lparr>active = True,
                          tick = (active (pingTimer s) \<and> tick (pingTimer s)),
                          period = pingPeriodTime s\<rparr>,
           pingTimerCas := 1,
           trace := trace s @ [GateCAS 1 0 True, TimerStop] @
             (if \<not> active (pingTimer s) \<and> tick (pingTimer s) then [TimerDrain] else []) @
             [TimerReset (pingPeriodTime s),
              SetReadDeadline (now s + sint (pongWaitTime s)),
              GateCAS 0 1 True]\<rparr>)"
  using assms
  by (simp add: resetPingTimer_def gate_claim gate_release stop_drain_reset_eq emit_def
      now_def Let_def)

lemma resetPingTimer_fail:
  assumes "pingTimerCas s = 1" "\<not> closed s" "setReadDeadlineErr (conn s) = Some err"
    "\<not> chClosed (outgoingCh s)"
  shows "resetPingTimer s = Returns False
        (s\<lparr>closed := True,
           pingTimer := \<lparr>active = False,
                          tick = (active (pingTimer s) \<and> tick (pingTimer s)),
                          period = pingPeriodTime s\<rparr>,
           pingTimerCas := 1,
           outgoingCh := (outgoingCh s)\<lparr>chClosed := True\<rparr>,
           trace := trace s @ [GateCAS 1 0 True, TimerStop] @
             (if \<not> active (pingTimer s) \<and> tick (pingTimer s) then [TimerDrain] else []) @
             [TimerReset (pingPeriodTime s),
              SetReadDeadline (now s + sint (pongWaitTime s)),
              LogErr ''Error while trying to set read deadline on socket connection'' err] @
             teardown s @ [GateCAS 0 1 True]\<rparr>)"
proof -
  let ?g = "s\<lparr>pingTimerCas := 0, trace := trace s @ [GateCAS 1 0 True]\<rparr>"
  let ?s2 = "emit (LogErr ''Error while trying to set read deadline on socket connection'' err)
      (emit (SetReadDeadline (now (stop_drain_reset ?g) +
             sint (pongWaitTime (stop_drain_reset ?g))))
        (stop_drain_reset ?g))"
  have open2: "\<not> closed ?s2" "\<not> chClosed (outgoingCh ?s2)"
    using assms by (simp_all add: stop_drain_reset_eq emit_def)
  have td: "teardown ?s2 = teardown s"
    by (simp add: teardown_def stop_drain_reset_eq emit_def now_def)
  have "resetPingTimer s =
      (case Close ?s2 of
         Returns _ s3 \<Rightarrow> Returns False (snd (gate_CAS 0 1 s3))
       | Blocks s3 \<Rightarrow> Blocks s3
       | Panics s3 \<Rightarrow> Panics (snd (gate_CAS 0 1 s3)))"
    using assms by (simp add: resetPingTimer_def gate_claim Let_def stop_drain_reset_eq emit_def)
  also have "\<dots> = Returns False (snd (gate_CAS 0 1
       (?s2\<lparr>closed := True,
            pingTimer := (pingTimer ?s2)\<lparr>active := False\<rparr>,
            outgoingCh := (outgoingCh ?s2)\<lparr>chClosed := True\<rparr>,
            trace := trace ?s2 @ teardown ?s2\<rparr>)))"
    by (simp add: Close_open_eq [OF open2])
  also have "\<dots> = Returns False
        (s\<lparr>closed := True,
           pingTimer := \<lparr>active = False,
                          tick = (active (pingTimer s) \<and> tick (pingTimer s)),
                          period = pingPeriodTime s\<rparr>,
           pingTimerCas := 1,
           outgoingCh := (outgoingCh s)\<lparr>chClosed := True\<rparr>,
           trace := trace s @ [GateCAS 1 0 True, TimerStop] @
             (if \<not> active (pingTimer s) \<and> tick (pingTimer s) then [TimerDrain] else []) @
             [TimerReset (pingPeriodTime s),
              SetReadDeadline (now s + sint (pongWaitTime s)),
              LogErr ''Error while trying to set read deadline on socket connection'' err] @
             teardown s @ [GateCAS 0 1 True]\<rparr>)"
    unfolding td
    by (simp add: gate_CAS_def stop_drain_reset_eq emit_def now_def)
  finally show ?thesis .
qed

lemma sint_dec:
  fixes c :: "64 word"
  assumes "1 \<le> sint c"
  shows "sint (c - 1) = sint c - 1"
proof -
  have "sint c < 2 ^ 63"
    using sint_lt [of c] by simp
  with assms show ?thesis
    by (simp add: sint_word_diff signed_take_bit_int_eq_self)
qed

lemma div_step:
  fixes n k :: nat
  assumes "0 < n"
  shows "(k + n) div n = Suc (k div n)"
  using assms div_add_self2 [of n k] by simp

lemma dispatch_eq:
  "dispatch h d s =
     (h (s\<lparr>trace := trace s @
            (case fst (jsonProtoUnmarshler s d) of
               None \<Rightarrow> [] | Some e \<Rightarrow> [LogErr ''Read message error'' e])\<rparr>)
        (snd (jsonProtoUnmarshler s d)),
      s\<lparr>trace := trace s @
            (case fst (jsonProtoUnmarshler s d) of
               None \<Rightarrow> [] | Some e \<Rightarrow> [LogErr ''Read message error'' e]) @
            [HandlerCall (snd (jsonProtoUnmarshler s d))]\<rparr>)"
  by (cases "jsonProtoUnmarshler s d")
     (simp add: dispatch_def Let_def emit_def split: option.splits)

lemma throttle_skip:
  "1 \<le> sint (receivedMsgDecrement s - 1) \<Longrightarrow>
   throttle s = Returns True (s\<lparr>receivedMsgDecrement := receivedMsgDecrement s - 1\<rparr>)"
  by (simp add: throttle_def Let_def)

lemma throttle_due:
  "sint (receivedMsgDecrement s - 1) < 1 \<Longrightarrow>
   throttle s =
     resetPingTimer (s\<lparr>receivedMsgDecrement := ReceivedMessageDecrementCount (config s)\<rparr>)"
  by (simp add: throttle_def Let_def)

lemma rearmed_case_log [simp]:
  "rearmed (case x of None \<Rightarrow> [] | Some e \<Rightarrow> [LogErr m e]) = []"
  by (cases x) simp_all

lemma decode_logged_case_log [simp]:
  "decode_logged (case x of None \<Rightarrow> [] | Some e \<Rightarrow> [LogErr ''Read message error'' e]) =
     (case x of None \<Rightarrow> [] | Some e \<Rightarrow> [e])"
  by (cases x) simp_all

lemma handled_case_log [simp]:
  "handled (case x of None \<Rightarrow> [] | Some e \<Rightarrow> [LogErr m e]) = []"
  by (cases x) simp_all

lemma loop_rearm_count:
  assumes h: "\<forall>s e. h s e"
  shows "\<not> closed s \<Longrightarrow> pingTimerCas s = 1 \<Longrightarrow> setReadDeadlineErr (conn s) = None \<Longrightarrow>
     1 \<le> sint (receivedMsgDecrement s) \<Longrightarrow>
     sint (receivedMsgDecrement s) \<le> sint (ReceivedMessageDecrementCount (config s)) \<Longrightarrow>
     \<exists>s'. consume_loop h (map Frame ds) s = Blocks s' \<and> \<not> closed s' \<and>
       length (rearmed (trace s')) = length (rearmed (trace s)) +
         (length ds + (nat (sint (ReceivedMessageDecrementCount (config s))) -
                       nat (sint (receivedMsgDecrement s))))
           div nat (sint (ReceivedMessageDecrementCount (config s)))"
proof (induction ds arbitrary: s)
  case Nil
  then show ?case by simp
next
  case (Cons d ds)
  let ?N = "ReceivedMessageDecrementCount (config s)"
  let ?c = "receivedMsgDecrement s"
  have dec: "sint (?c - 1) = sint ?c - 1"
    using Cons.prems(4) by (rule sint_dec)
  show ?case
  proof (cases "2 \<le> sint ?c")
    case True
    let ?s1 = "s\<lparr>receivedMsgDecrement := ?c - 1\<rparr>"
    let ?s2 = "snd (dispatch h d ?s1)"
    have thr: "throttle s = Returns True ?s1"
      using True dec by (simp add: throttle_skip)
    have step: "consume_loop h (map Frame (d # ds)) s = consume_loop h (map Frame ds) ?s2"
      using h by (simp add: thr dispatch_eq)
    have p: "\<not> closed ?s2" "pingTimerCas ?s2 = 1" "setReadDeadlineErr (conn ?s2) = None"
      "1 \<le> sint (receivedMsgDecrement ?s2)"
      "sint (receivedMsgDecrement ?s2) \<le> sint (ReceivedMessageDecrementCount (config ?s2))"
      using Cons.prems True dec by (simp_all add: dispatch_eq)
    from Cons.IH [OF p] obtain s' where s': "consume_loop h (map Frame ds) ?s2 = Blocks s'"
      "\<not> closed s'"
      "length (rearmed (trace s')) = length (rearmed (trace ?s2)) +
         (length ds + (nat (sint (ReceivedMessageDecrementCount (config ?s2))) -
                       nat (sint (receivedMsgDecrement ?s2))))
           div nat (sint (ReceivedMessageDecrementCount (config ?s2)))"
      by blast
    have cfg: "config ?s2 = config s" "receivedMsgDecrement ?s2 = ?c - 1"
      "rearmed (trace ?s2) = rearmed (trace s)"
      by (simp_all add: dispatch_eq rearmed_append)
    have ar: "length ds + (nat (sint ?N) - nat (sint (?c - 1))) =
        length (d # ds) + (nat (sint ?N) - nat (sint ?c))"
      using True dec Cons.prems(5) by simp
    show ?thesis
      using s' unfolding step cfg ar by blast
  next
    case False
    with Cons.prems(4) have c1: "sint ?c = 1" by simp
    let ?s0 = "s\<lparr>receivedMsgDecrement := ?N\<rparr>"
    let ?s1 = "?s0\<lparr>pingTimer := \<lparr>active = True,
                          tick = (active (pingTimer ?s0) \<and> tick (pingTimer ?s0)),
                          period = pingPeriodTime ?s0\<rparr>,
           pingTimerCas := 1,
           trace := trace ?s0 @ [GateCAS 1 0 True, TimerStop] @
             (if \<not> active (pingTimer ?s0) \<and> tick (pingTimer ?s0) then [TimerDrain] else []) @
             [TimerReset (pingPeriodTime ?s0),
              SetReadDeadline (now ?s0 + sint (pongWaitTime ?s0)),
              GateCAS 0 1 True]\<rparr>"
    let ?s2 = "snd (dispatch h d ?s1)"
    have "throttle s = resetPingTimer ?s0"
      using c1 dec by (simp add: throttle_due)
    also have "\<dots> = Returns True ?s1"
      using Cons.prems(1-3) by (intro resetPingTimer_ok) simp_all
    finally have thr: "throttle s = Returns True ?s1" .
    have step: "consume_loop h (map Frame (d # ds)) s = consume_loop h (map Frame ds) ?s2"
      using h by (simp add: thr dispatch_eq)
    have N1: "1 \<le> sint ?N"
      using Cons.prems(4,5) by simp
    have p: "\<not> closed ?s2" "pingTimerCas ?s2 = 1" "setReadDeadlineErr (conn ?s2) = None"
      "1 \<le> sint (receivedMsgDecrement ?s2)"
      "sint (receivedMsgDecrement ?s2) \<le> sint (ReceivedMessageDecrementCount (config ?s2))"
      using Cons.prems N1 by (simp_all add: dispatch_eq)
    from Cons.IH [OF p] obtain s' where s': "consume_loop h (map Frame ds) ?s2 = Blocks s'"
      "\<not> closed s'"
      "length (rearmed (trace s')) = length (rearmed (trace ?s2)) +
         (length ds + (nat (sint (ReceivedMessageDecrementCount (config ?s2))) -
                       nat (sint (receivedMsgDecrement ?s2))))
           div nat (sint (ReceivedMessageDecrementCount (config ?s2)))"
      by blast
    have cfg: "config ?s2 = config s" "receivedMsgDecrement ?s2 = ?N"
      "length (rearmed (trace ?s2)) = Suc (length (rearmed (trace s)))"
      by (simp_all add: dispatch_eq rearmed_append)
    have npos: "0 < nat (sint ?N)"
      using N1 by simp
    have c1n: "nat (sint ?c) = 1"
      using c1 by simp
    have ar: "Suc (length (rearmed (trace s))) +
        (length ds + (nat (sint ?N) - nat (sint ?N))) div nat (sint ?N) =
        length (rearmed (trace s)) +
        (length (d # ds) + (nat (sint ?N) - nat (sint ?c))) div nat (sint ?N)"
      unfolding c1n using npos by (simp add: div_step)
    show ?thesis
      using s' unfolding step cfg ar by blast
  qed
qed

lemma throttle_ok:
  assumes "\<not> closed s" "setReadDeadlineErr (conn s) = None"
  shows "\<exists>s1. throttle s = Returns True s1 \<and> \<not> closed s1 \<and> conn s1 = conn s \<and>
           jsonProtoUnmarshler s1 = jsonProtoUnmarshler s \<and>
           handled (trace s1) = handled (trace s) \<and>
           decode_logged (trace s1) = decode_logged (trace s)"
proof (cases "sint (receivedMsgDecrement s - 1) < 1")
  case False
  then show ?thesis
    using assms by (simp add: throttle_skip)
next
  case True
  let ?s0 = "s\<lparr>receivedMsgDecrement := ReceivedMessageDecrementCount (config s)\<rparr>"
  have thr: "throttle s = resetPingTimer ?s0"
    using True by (rule throttle_due)
  show ?thesis
  proof (cases "pingTimerCas s = 1")
    case False
    then have "resetPingTimer ?s0 =
        Returns True (?s0\<lparr>trace := trace ?s0 @ [GateCAS 1 0 False]\<rparr>)"
      by (intro resetPingTimer_busy) simp
    with thr assms show ?thesis
      by (simp add: handled_append decode_logged_append)
  next
    case True
    have "pingTimerCas ?s0 = 1" "\<not> closed ?s0" "setReadDeadlineErr (conn ?s0) = None"
      using True assms by simp_all
    from resetPingTimer_ok [OF this] thr assms show ?thesis
      by (simp add: handled_append decode_logged_append)
  qed
qed

lemma frame_step:
  assumes "\<not> closed s" "setReadDeadlineErr (conn s) = None"
    and "jsonProtoUnmarshler s d = (e, r)" and "\<forall>s'. h s' r"
  shows "\<exists>s2. consume_loop h (Frame d # rest) s = consume_loop h rest s2 \<and>
           \<not> closed s2 \<and> conn s2 = conn s \<and>
           jsonProtoUnmarshler s2 = jsonProtoUnmarshler s \<and>
           handled (trace s2) = handled (trace s) @ [r] \<and>
           decode_logged (trace s2) =
             decode_logged (trace s) @ (case e of None \<Rightarrow> [] | Some x \<Rightarrow> [x])"
proof -
  from throttle_ok [OF assms(1,2)] obtain s1 where s1: "throttle s = Returns True s1"
    "\<not> closed s1" "conn s1 = conn s" "jsonProtoUnmarshler s1 = jsonProtoUnmarshler s"
    "handled (trace s1) = handled (trace s)"
    "decode_logged (trace s1) = decode_logged (trace s)"
    by blast
  let ?s2 = "snd (dispatch h d s1)"
  have "consume_loop h (Frame d # rest) s = consume_loop h rest ?s2"
    using s1(1,4) assms(3,4) by (simp add: dispatch_eq)
  moreover have "\<not> closed ?s2" "conn ?s2 = conn s"
    "jsonProtoUnmarshler ?s2 = jsonProtoUnmarshler s"
    "handled (trace ?s2) = handled (trace s) @ [r]"
    "decode_logged (trace ?s2) =
       decode_logged (trace s) @ (case e of None \<Rightarrow> [] | Some x \<Rightarrow> [x])"
    using s1 assms(3) by (simp_all add: dispatch_eq handled_append decode_logged_append)
  ultimately show ?thesis
    by blast
qed

subsection \<open>The queue invariant\<close>

lemma queue_inv_NewSession:
  "NewSession maxChan u uid uname ex ip port c cfg m um = Some s \<Longrightarrow> queue_inv s"
  by (auto simp add: NewSession_def queue_inv_def split: if_splits)

lemma queue_inv_SetUsername: "queue_inv s \<Longrightarrow> queue_inv (SetUsername name s)"
  by (simp add: queue_inv_def SetUsername_def)

lemma queue_inv_Close: "queue_inv s \<Longrightarrow> queue_inv (state_of (Close s))"
proof (cases "closed s")
  case True
  assume "queue_inv s"
  with True show ?thesis
    by (simp add: Close_closed)
next
  case False
  assume "queue_inv s"
  with False have "\<not> chClosed (outgoingCh s)"
    by (simp add: queue_inv_def)
  with False show ?thesis
    by (simp add: Close_open_eq queue_inv_def)
qed

lemma queue_inv_SendBytes:
  assumes "queue_inv s"
  shows "queue_inv (state_of (SendBytes isStream mode p s))"
proof (cases "closed s")
  case True
  with assms show ?thesis
    by (simp add: SendBytes_def)
next
  case False
  with assms have op: "\<not> chClosed (outgoingCh s)"
    by (simp add: queue_inv_def)
  let ?s0 = "emit (Log ''Could not write message, session outgoing queue full'') s"
  have "\<not> closed ?s0" "\<not> chClosed (outgoingCh ?s0)"
    using False op by (simp_all add: emit_def)
  then have "Close ?s0 = Returns () (state_of (Close ?s0))" "closed (state_of (Close ?s0))"
    by (simp_all add: Close_open_eq)
  then have "queue_inv (state_of (case Close ?s0 of
      Returns _ s1 \<Rightarrow> Returns (Some ''outgoing queue full'') s1
    | Blocks s1 \<Rightarrow> Blocks s1
    | Panics s1 \<Rightarrow> Panics s1))"
    by (cases "Close ?s0") (simp_all add: queue_inv_def)
  with False op show ?thesis
    by (simp add: SendBytes_def queue_inv_def chan_push_def)
qed

lemma queue_inv_Send:
  assumes "queue_inv s"
  shows "queue_inv (state_of (Send isStream mode envelope s))"
proof (cases "jsonProtoMarshler s envelope")
  case (Inl err)
  with assms show ?thesis
    by (simp add: Send_def emit_def queue_inv_def)
next
  case (Inr p)
  with queue_inv_SendBytes [OF assms] show ?thesis
    by (simp add: Send_def)
qed

lemma queue_inv_resetPingTimer:
  assumes "queue_inv s"
  shows "queue_inv (state_of (resetPingTimer s))"
proof (cases "pingTimerCas s = 1")
  case False
  with assms show ?thesis
    by (simp add: resetPingTimer_busy queue_inv_def)
next
  case gate: True
  show ?thesis
  proof (cases "closed s")
    case True
    with assms gate show ?thesis
      by (simp add: resetPingTimer_closed queue_inv_def)
  next
    case False
    with assms have op: "\<not> chClosed (outgoingCh s)"
      by (simp add: queue_inv_def)
    show ?thesis
    proof (cases "setReadDeadlineErr (conn s)")
      case None
      with gate False op show ?thesis
        by (simp add: resetPingTimer_ok queue_inv_def)
    next
      case (Some err)
      with gate False op show ?thesis
        by (simp add: resetPingTimer_fail queue_inv_def)
    qed
  qed
qed

lemma queue_inv_throttle: "queue_inv s \<Longrightarrow> queue_inv (state_of (throttle s))"
proof -
  assume inv: "queue_inv s"
  then have "queue_inv (s\<lparr>receivedMsgDecrement := ReceivedMessageDecrementCount (config s)\<rparr>)"
    "queue_inv (s\<lparr>receivedMsgDecrement := receivedMsgDecrement s - 1\<rparr>)"
    by (simp_all add: queue_inv_def)
  with queue_inv_resetPingTimer
    [of "s\<lparr>receivedMsgDecrement := ReceivedMessageDecrementCount (config s)\<rparr>"]
  show ?thesis
    by (simp add: throttle_def Let_def)
qed

lemma queue_inv_consume_loop:
  "queue_inv s \<Longrightarrow> queue_inv (state_of (consume_loop h arriving s))"
proof (induction h arriving s rule: consume_loop.induct)
  case (1 h s)
  then show ?case by simp
next
  case (2 h err rest s)
  then show ?case
    by (simp add: log_read_error_def emit_def queue_inv_def split: read_err.splits)
next
  case (3 h rest s)
  have "queue_inv (emit (Log ''pong received'') s)"
    using "3.prems" by (simp add: emit_def queue_inv_def)
  then have inv: "queue_inv (state_of (resetPingTimer (emit (Log ''pong received'') s)))"
    by (rule queue_inv_resetPingTimer)
  show ?case
  proof (cases "resetPingTimer (emit (Log ''pong received'') s)")
    case (Returns ok s1)
    with inv have "queue_inv s1" by simp
    moreover from Returns have "pongHandler s = Returns () s1"
      by (simp add: pongHandler_def)
    ultimately show ?thesis
      using "3.IH" by simp
  next
    case (Blocks s1)
    with inv show ?thesis by (simp add: pongHandler_def)
  next
    case (Panics s1)
    with inv show ?thesis by (simp add: pongHandler_def)
  qed
next
  case (4 h d rest s)
  from "4.prems" have inv: "queue_inv (state_of (throttle s))"
    by (rule queue_inv_throttle)
  show ?case
  proof (cases "throttle s")
    case (Returns ok s1)
    with inv have s1: "queue_inv s1" by simp
    obtain continue s2 where d: "dispatch h d s1 = (continue, s2)"
      by (cases "dispatch h d s1")
    have "queue_inv (snd (dispatch h d s1))"
      using s1 by (simp add: dispatch_eq queue_inv_def)
    with d have s2: "queue_inv s2"
      by simp
    show ?thesis
    proof (cases "ok \<and> continue")
      case True
      then have "consume_loop h (Frame d # rest) s = consume_loop h rest s2"
        using Returns d by simp
      moreover have "queue_inv (state_of (consume_loop h rest s2))"
        using "4.IH" Returns d True s2 by simp
      ultimately show ?thesis
        by simp
    next
      case False
      with Returns d s1 s2 show ?thesis
        by auto
    qed
  next
    case (Blocks s1)
    with inv show ?thesis by simp
  next
    case (Panics s1)
    with inv show ?thesis by simp
  qed
qed

lemma queue_inv_Consume:
  assumes "queue_inv s"
  shows "queue_inv (state_of (Consume h arriving s))"
proof (cases "setReadDeadlineErr (conn s)")
  case (Some err)
  let ?s2 = "emit (LogErr ''Error occured while trying to set read deadline'' err)
      (emit (SetReadDeadline (now (emit (SetReadLimit 4096) s) +
               sint (pongWaitTime (emit (SetReadLimit 4096) s))))
        (emit (SetReadLimit 4096) s))"
  have "queue_inv ?s2"
    using assms by (simp add: emit_def queue_inv_def)
  then have "queue_inv (state_of (Close ?s2))"
    by (rule queue_inv_Close)
  with Some show ?thesis
    by (simp add: Consume_def Let_def emit_def)
next
  case None
  let ?s0 = "emit GoProcessOutgoing (emit SetPongHandler
      (emit (SetReadDeadline (now (emit (SetReadLimit 4096) s) +
               sint (pongWaitTime (emit (SetReadLimit 4096) s))))
        (emit (SetReadLimit 4096) s)))"
  have "queue_inv ?s0"
    using assms by (simp add: emit_def queue_inv_def)
  then have loop: "queue_inv (state_of (consume_loop h arriving ?s0))"
    by (rule queue_inv_consume_loop)
  have C: "Consume h arriving s =
      (case consume_loop h arriving ?s0 of
         Returns _ s3 \<Rightarrow> Close s3
       | Blocks s3 \<Rightarrow> Blocks s3
       | Panics s3 \<Rightarrow>
           (case Close s3 of
              Returns _ s4 \<Rightarrow> Panics s4
            | Blocks s4 \<Rightarrow> Blocks s4
            | Panics s4 \<Rightarrow> Panics s4))"
    using None by (simp add: Consume_def Let_def emit_def)
  show ?thesis
  proof (cases "consume_loop h arriving ?s0")
    case (Returns u s3)
    with loop queue_inv_Close [of s3] C show ?thesis
      by simp
  next
    case (Blocks s3)
    with loop C show ?thesis
      by simp
  next
    case (Panics s3)
    with loop queue_inv_Close [of s3] C show ?thesis
      by (cases "Close s3") simp_all
  qed
qed

subsection \<open>Accessors\<close>

text \<open>
  C10. \<open>SetUsername\<close> changes the user name and nothing else that the claim lists:
  afterwards \<open>Username\<close> answers the new name, and the identity, the user id, the
  expiry, the client address and port, the three durations, the closed flag and the
  throttle counter are what they were.
\<close>

theorem SetUsername_frame:
  "Username (SetUsername name s) = name \<and>
   ID (SetUsername name s) = ID s \<and>
   UserID (SetUsername name s) = UserID s \<and>
   Expiry (SetUsername name s) = Expiry s \<and>
   ClientIP (SetUsername name s) = ClientIP s \<and>
   ClientPort (SetUsername name s) = ClientPort s \<and>
   pingPeriodTime (SetUsername name s) = pingPeriodTime s \<and>
   pongWaitTime (SetUsername name s) = pongWaitTime s \<and>
   writeWaitTime (SetUsername name s) = writeWaitTime s \<and>
   closed (SetUsername name s) = closed s \<and>
   receivedMsgDecrement (SetUsername name s) = receivedMsgDecrement s"
  by (simp add: SetUsername_def Username_def ID_def UserID_def Expiry_def ClientIP_def
      ClientPort_def)

subsection \<open>Close\<close>

text \<open>
  C8. The first \<open>Close\<close> of an open session returns with the flag set, the timer
  stopped and the queue closed, and its steps are, in this order: the registry's
  removal of the session's identity, the timer's stop, the queue's close, the close
  frame with the deadline now + write-wait, the connection's close. A failure of the
  close frame or of the connection's close adds a log line after that step and
  nothing else: every later step and the state transition are the same.
\<close>

theorem Close_teardown_order:
  assumes "\<not> closed s" "\<not> chClosed (outgoingCh s)"
  shows "\<exists>s'. Close s = Returns () s' \<and> closed s' \<and>
           \<not> active (pingTimer s') \<and> chClosed (outgoingCh s') \<and>
           trace s' = trace s @
             [RegistryRemove (id_uuid s), TimerStop, ChanClose,
              WriteControlClose [] (now s + sint (writeWaitTime s))] @
             (if writeControlErr (conn s) = None then []
              else [Log ''Couldn't send close message to client'']) @
             [ConnClose] @
             (if closeErr (conn s) = None then []
              else [LogId ''Couldn't close socket connection for session id: '' (id_uuid s)])"
  using assms by (simp add: Close_def Let_def emit_def timer_Stop_def close_io_def now_def)

theorem Close_teardown_order_witness:
  "\<not> closed test_session \<and> \<not> chClosed (outgoingCh test_session) \<and>
   closed (state_of (Close test_session)) \<and>
   trace (state_of (Close test_session)) =
     [RegistryRemove 7, TimerStop, ChanClose, WriteControlClose [] 5000001000, ConnClose]"
proof -
  have h1: "\<not> closed test_session" and h2: "\<not> chClosed (outgoingCh test_session)"
    by (simp_all add: test_session_def)
  from Close_teardown_order [OF h1 h2] obtain s' where
    "Close test_session = Returns () s'" "closed s'"
    "trace s' = trace test_session @
       [RegistryRemove (id_uuid test_session), TimerStop, ChanClose,
        WriteControlClose [] (now test_session + sint (writeWaitTime test_session))] @
       (if writeControlErr (conn test_session) = None then []
        else [Log ''Couldn't send close message to client'']) @
       [ConnClose] @
       (if closeErr (conn test_session) = None then []
        else [LogId ''Couldn't close socket connection for session id: ''
                (id_uuid test_session)])"
    by blast
  then show ?thesis
    using h1 h2 by (simp add: test_session_def test_conn_def now_def)
qed

text \<open>
  C3. \<open>Close\<close> is idempotent. From any state that satisfies the queue invariant the
  first call returns (it does not panic) with the flag set. On an open session it
  performs the teardown once: the trace grows by the five steps, the registry's
  removal among them once. On a closed session it returns the state as it is. Called
  again after the first call, and any number of times in a row, it returns the state
  that the first call left, so nothing is added to the trace and the registry is not
  told again.
\<close>

theorem Close_idempotent:
  assumes "queue_inv s"
  shows "\<exists>s1. Close s = Returns () s1 \<and> closed s1 \<and>
           (closed s \<longrightarrow> s1 = s) \<and>
           trace s1 = (if closed s then trace s else trace s @ teardown s) \<and>
           removed (trace s1) =
             (if closed s then removed (trace s) else removed (trace s) @ [id_uuid s]) \<and>
           Close s1 = Returns () s1 \<and>
           (\<forall>n. Close_times (Suc n) s = Returns () s1)"
proof (cases "closed s")
  case True
  then show ?thesis
    by (simp add: Close_closed Close_times_closed)
next
  case False
  with assms have "\<not> chClosed (outgoingCh s)"
    by (simp add: queue_inv_def)
  with False have "Close s = Returns ()
           (s\<lparr>closed := True,
              pingTimer := (pingTimer s)\<lparr>active := False\<rparr>,
              outgoingCh := (outgoingCh s)\<lparr>chClosed := True\<rparr>,
              trace := trace s @ teardown s\<rparr>)"
    by (rule Close_open_eq)
  with False show ?thesis
    by (simp add: Close_closed Close_times_closed removed_append removed_teardown)
qed

theorem Close_idempotent_witness:
  "queue_inv test_session \<and>
   removed (trace (state_of (Close_times 3 test_session))) = [7] \<and>
   trace (state_of (Close_times 3 test_session)) =
     [RegistryRemove 7, TimerStop, ChanClose, WriteControlClose [] 5000001000, ConnClose] \<and>
   Close_times 3 test_session = Close test_session"
proof -
  have h: "queue_inv test_session"
    by (simp add: queue_inv_def test_session_def)
  from Close_idempotent [OF h] obtain s1 where
    s1: "Close test_session = Returns () s1"
    "trace s1 = (if closed test_session then trace test_session
                 else trace test_session @ teardown test_session)"
    "removed (trace s1) =
       (if closed test_session then removed (trace test_session)
        else removed (trace test_session) @ [id_uuid test_session])"
    "\<forall>n. Close_times (Suc n) test_session = Returns () s1"
    by blast
  from s1(4) have "Close_times (Suc 2) test_session = Returns () s1"
    by blast
  then have "Close_times 3 test_session = Returns () s1"
    by (simp add: numeral_3_eq_3)
  with s1(1,2,3) h show ?thesis
    by (simp add: test_session_def teardown_def now_def test_conn_def)
qed

subsection \<open>The re-arm sequence\<close>

text \<open>
  C5. \<open>resetPingTimer\<close> in its four cases, with every call on the gate in the
  trace. With the gate already claimed the one \<open>CAS(1, 0)\<close> fails, the call returns
  true and the session is otherwise untouched: no timer step, no deadline. With the
  gate free and the session closed the gate is claimed and released and the call
  returns false, nothing else done. With the gate free and the session open the gate
  is claimed, the timer is stopped, a fired and unconsumed tick is taken out of the
  timer's channel, the timer is re-armed with the ping period and the read deadline is
  set to now + pong-wait. When the deadline was set, the gate is released and the call
  returns true. When setting the deadline fails, the failure is logged, the session is
  closed (the whole teardown), then the gate is released, by the deferred call, and
  the call returns false. In each case the gate is free at the end.
\<close>

theorem resetPingTimer_sequence:
  "(pingTimerCas s \<noteq> 1 \<longrightarrow>
      resetPingTimer s = Returns True (s\<lparr>trace := trace s @ [GateCAS 1 0 False]\<rparr>)) \<and>
   (pingTimerCas s = 1 \<and> closed s \<longrightarrow>
      resetPingTimer s = Returns False
        (s\<lparr>pingTimerCas := 1,
           trace := trace s @ [GateCAS 1 0 True, GateCAS 0 1 True]\<rparr>)) \<and>
   (pingTimerCas s = 1 \<and> \<not> closed s \<and> setReadDeadlineErr (conn s) = None \<longrightarrow>
      resetPingTimer s = Returns True
        (s\<lparr>pingTimer := \<lparr>active = True,
                          tick = (active (pingTimer s) \<and> tick (pingTimer s)),
                          period = pingPeriodTime s\<rparr>,
           pingTimerCas := 1,
           trace := trace s @ [GateCAS 1 0 True, TimerStop] @
             (if \<not> active (pingTimer s) \<and> tick (pingTimer s) then [TimerDrain] else []) @
             [TimerReset (pingPeriodTime s),
              SetReadDeadline (now s + sint (pongWaitTime s)),
              GateCAS 0 1 True]\<rparr>)) \<and>
   (pingTimerCas s = 1 \<and> \<not> closed s \<and> setReadDeadlineErr (conn s) = Some err \<and>
    \<not> chClosed (outgoingCh s) \<longrightarrow>
      resetPingTimer s = Returns False
        (s\<lparr>closed := True,
           pingTimer := \<lparr>active = False,
                          tick = (active (pingTimer s) \<and> tick (pingTimer s)),
                          period = pingPeriodTime s\<rparr>,
           pingTimerCas := 1,
           outgoingCh := (outgoingCh s)\<lparr>chClosed := True\<rparr>,
           trace := trace s @ [GateCAS 1 0 True, TimerStop] @
             (if \<not> active (pingTimer s) \<and> tick (pingTimer s) then [TimerDrain] else []) @
             [TimerReset (pingPeriodTime s),
              SetReadDeadline (now s + sint (pongWaitTime s)),
              LogErr ''Error while trying to set read deadline on socket connection'' err] @
             teardown s @ [GateCAS 0 1 True]\<rparr>)) \<and>
   (pingTimerCas s = 1 \<longrightarrow>
      pingTimerCas (snd (gate_CAS 1 0 s)) = 0 \<and>
      pingTimerCas (snd (gate_CAS 0 1 (snd (gate_CAS 1 0 s)))) = 1)"
proof (intro conjI impI)
  assume "pingTimerCas s \<noteq> 1"
  then show "resetPingTimer s = Returns True (s\<lparr>trace := trace s @ [GateCAS 1 0 False]\<rparr>)"
    by (rule resetPingTimer_busy)
next
  assume "pingTimerCas s = 1 \<and> closed s"
  then show "resetPingTimer s = Returns False
        (s\<lparr>pingTimerCas := 1,
           trace := trace s @ [GateCAS 1 0 True, GateCAS 0 1 True]\<rparr>)"
    by (simp add: resetPingTimer_closed)
next
  assume "pingTimerCas s = 1 \<and> \<not> closed s \<and> setReadDeadlineErr (conn s) = None"
  then show "resetPingTimer s = Returns True
        (s\<lparr>pingTimer := \<lparr>active = True,
                          tick = (active (pingTimer s) \<and> tick (pingTimer s)),
                          period = pingPeriodTime s\<rparr>,
           pingTimerCas := 1,
           trace := trace s @ [GateCAS 1 0 True, TimerStop] @
             (if \<not> active (pingTimer s) \<and> tick (pingTimer s) then [TimerDrain] else []) @
             [TimerReset (pingPeriodTime s),
              SetReadDeadline (now s + sint (pongWaitTime s)),
              GateCAS 0 1 True]\<rparr>)"
    by (intro resetPingTimer_ok) simp_all
next
  assume "pingTimerCas s = 1 \<and> \<not> closed s \<and> setReadDeadlineErr (conn s) = Some err \<and>
    \<not> chClosed (outgoingCh s)"
  then show "resetPingTimer s = Returns False
        (s\<lparr>closed := True,
           pingTimer := \<lparr>active = False,
                          tick = (active (pingTimer s) \<and> tick (pingTimer s)),
                          period = pingPeriodTime s\<rparr>,
           pingTimerCas := 1,
           outgoingCh := (outgoingCh s)\<lparr>chClosed := True\<rparr>,
           trace := trace s @ [GateCAS 1 0 True, TimerStop] @
             (if \<not> active (pingTimer s) \<and> tick (pingTimer s) then [TimerDrain] else []) @
             [TimerReset (pingPeriodTime s),
              SetReadDeadline (now s + sint (pongWaitTime s)),
              LogErr ''Error while trying to set read deadline on socket connection'' err] @
             teardown s @ [GateCAS 0 1 True]\<rparr>)"
    by (intro resetPingTimer_fail) simp_all
next
  assume g: "pingTimerCas s = 1"
  then show "pingTimerCas (snd (gate_CAS 1 0 s)) = 0"
    by (simp add: gate_claim)
  from g show "pingTimerCas (snd (gate_CAS 0 1 (snd (gate_CAS 1 0 s)))) = 1"
    by (simp add: gate_claim gate_release)
qed

theorem resetPingTimer_sequence_witness:
  "pingTimerCas (test_session\<lparr>pingTimerCas := 0\<rparr>) \<noteq> 1 \<and>
   resetPingTimer (test_session\<lparr>pingTimerCas := 0\<rparr>) =
     Returns True (test_session\<lparr>pingTimerCas := 0, trace := [GateCAS 1 0 False]\<rparr>) \<and>
   pingTimerCas test_closed_session = 1 \<and> closed test_closed_session \<and>
   resetPingTimer test_closed_session =
     Returns False (test_closed_session\<lparr>trace := [GateCAS 1 0 True, GateCAS 0 1 True]\<rparr>) \<and>
   pingTimerCas test_session = 1 \<and> \<not> closed test_session \<and>
   setReadDeadlineErr (conn test_session) = None \<and>
   pingTimerCas (snd (gate_CAS 1 0 test_session)) = 0 \<and>
   resetPingTimer test_session =
     Returns True (test_session\<lparr>trace :=
       [GateCAS 1 0 True, TimerStop, TimerReset 15000000000, SetReadDeadline 25000001000,
        GateCAS 0 1 True]\<rparr>) \<and>
   pingTimerCas test_broken_session = 1 \<and> \<not> closed test_broken_session \<and>
   setReadDeadlineErr (conn test_broken_session) = Some ''broken pipe'' \<and>
   \<not> chClosed (outgoingCh test_broken_session) \<and>
   resetPingTimer test_broken_session =
     Returns False (test_broken_session\<lparr>closed := True,
       pingTimer := \<lparr>active = False, tick = False, period = 15000000000\<rparr>,
       outgoingCh := \<lparr>buf = [], cap = 2, chClosed = True\<rparr>,
       trace := [GateCAS 1 0 True, TimerStop, TimerReset 15000000000,
         SetReadDeadline 25000001000,
         LogErr ''Error while trying to set read deadline on socket connection''
           ''broken pipe'',
         RegistryRemove 7, TimerStop, ChanClose, WriteControlClose [] 5000001000,
         ConnClose, GateCAS 0 1 True]\<rparr>)"
proof -
  have a: "pingTimerCas (test_session\<lparr>pingTimerCas := 0\<rparr>) \<noteq> 1"
    by simp
  have b: "pingTimerCas test_closed_session = 1 \<and> closed test_closed_session"
    by (simp add: test_closed_session_def test_session_def)
  have c: "pingTimerCas test_session = 1 \<and> \<not> closed test_session \<and>
      setReadDeadlineErr (conn test_session) = None"
    by (simp add: test_session_def test_conn_def)
  have d: "pingTimerCas test_broken_session = 1 \<and> \<not> closed test_broken_session \<and>
      setReadDeadlineErr (conn test_broken_session) = Some ''broken pipe'' \<and>
      \<not> chClosed (outgoingCh test_broken_session)"
    by (simp add: test_broken_session_def test_session_def)
  from resetPingTimer_sequence [of "test_session\<lparr>pingTimerCas := 0\<rparr>"] a
  have "resetPingTimer (test_session\<lparr>pingTimerCas := 0\<rparr>) =
      Returns True (test_session\<lparr>pingTimerCas := 0,
        trace := trace (test_session\<lparr>pingTimerCas := 0\<rparr>) @ [GateCAS 1 0 False]\<rparr>)"
    by simp
  then have A: "resetPingTimer (test_session\<lparr>pingTimerCas := 0\<rparr>) =
      Returns True (test_session\<lparr>pingTimerCas := 0, trace := [GateCAS 1 0 False]\<rparr>)"
    by (simp add: test_session_def)
  from resetPingTimer_sequence [of test_closed_session] b
  have "resetPingTimer test_closed_session = Returns False
        (test_closed_session\<lparr>pingTimerCas := 1,
           trace := trace test_closed_session @ [GateCAS 1 0 True, GateCAS 0 1 True]\<rparr>)"
    by blast
  then have B: "resetPingTimer test_closed_session =
     Returns False (test_closed_session\<lparr>trace := [GateCAS 1 0 True, GateCAS 0 1 True]\<rparr>)"
    by (simp add: test_closed_session_def test_session_def)
  from resetPingTimer_sequence [of test_session] c
  have G: "pingTimerCas (snd (gate_CAS 1 0 test_session)) = 0"
    by blast
  from resetPingTimer_sequence [of test_session] c
  have "resetPingTimer test_session = Returns True
        (test_session\<lparr>pingTimer := \<lparr>active = True,
             tick = (active (pingTimer test_session) \<and> tick (pingTimer test_session)),
             period = pingPeriodTime test_session\<rparr>,
           pingTimerCas := 1,
           trace := trace test_session @ [GateCAS 1 0 True, TimerStop] @
             (if \<not> active (pingTimer test_session) \<and> tick (pingTimer test_session)
              then [TimerDrain] else []) @
             [TimerReset (pingPeriodTime test_session),
              SetReadDeadline (now test_session + sint (pongWaitTime test_session)),
              GateCAS 0 1 True]\<rparr>)"
    by blast
  then have C: "resetPingTimer test_session =
     Returns True (test_session\<lparr>trace :=
       [GateCAS 1 0 True, TimerStop, TimerReset 15000000000, SetReadDeadline 25000001000,
        GateCAS 0 1 True]\<rparr>)"
    by (simp add: test_session_def test_conn_def now_def)
  from resetPingTimer_sequence [of test_broken_session "''broken pipe''"] d
  have "resetPingTimer test_broken_session = Returns False
        (test_broken_session\<lparr>closed := True,
           pingTimer := \<lparr>active = False,
             tick = (active (pingTimer test_broken_session) \<and>
                     tick (pingTimer test_broken_session)),
             period = pingPeriodTime test_broken_session\<rparr>,
           pingTimerCas := 1,
           outgoingCh := (outgoingCh test_broken_session)\<lparr>chClosed := True\<rparr>,
           trace := trace test_broken_session @ [GateCAS 1 0 True, TimerStop] @
             (if \<not> active (pingTimer test_broken_session) \<and>
                 tick (pingTimer test_broken_session) then [TimerDrain] else []) @
             [TimerReset (pingPeriodTime test_broken_session),
              SetReadDeadline (now test_broken_session +
                sint (pongWaitTime test_broken_session)),
              LogErr ''Error while trying to set read deadline on socket connection''
                ''broken pipe''] @
             teardown test_broken_session @ [GateCAS 0 1 True]\<rparr>)"
    by blast
  then have D: "resetPingTimer test_broken_session =
     Returns False (test_broken_session\<lparr>closed := True,
       pingTimer := \<lparr>active = False, tick = False, period = 15000000000\<rparr>,
       outgoingCh := \<lparr>buf = [], cap = 2, chClosed = True\<rparr>,
       trace := [GateCAS 1 0 True, TimerStop, TimerReset 15000000000,
         SetReadDeadline 25000001000,
         LogErr ''Error while trying to set read deadline on socket connection''
           ''broken pipe'',
         RegistryRemove 7, TimerStop, ChanClose, WriteControlClose [] 5000001000,
         ConnClose, GateCAS 0 1 True]\<rparr>)"
    by (simp add: test_broken_session_def test_session_def test_conn_def now_def
        teardown_def)
  from a b c d A B G C D show ?thesis
    by blast
qed

subsection \<open>SendBytes and Send\<close>

text \<open>
  C4. On a session whose closed flag is set, \<open>SendBytes\<close> returns nil for every
  \<open>isStream\<close>, mode and payload, and the session is exactly as before: nothing is
  enqueued and nothing else happens.
\<close>

theorem SendBytes_closed_noop:
  "closed s \<Longrightarrow> SendBytes isStream mode p s = Returns None s"
  by (simp add: SendBytes_def)

theorem SendBytes_closed_noop_witness:
  "closed test_closed_session \<and>
   SendBytes True 0 [1] test_closed_session = Returns None test_closed_session \<and>
   SendBytes False 0 [1] test_closed_session = Returns None test_closed_session"
proof -
  have h: "closed test_closed_session"
    by (simp add: test_closed_session_def)
  show ?thesis
    using h SendBytes_closed_noop [OF h, of True 0 "[1]"]
      SendBytes_closed_noop [OF h, of False 0 "[1]"]
    by simp
qed

text \<open>
  C2. On an open session with a buffered queue (capacity 1 or more), \<open>SendBytes\<close>
  with \<open>isStream\<close> false returns without blocking. While the queue has a free slot it appends the payload and returns nil,
  and nothing else changes. When the queue is at capacity it returns the error
  \<open>outgoing queue full\<close>, the payload is not enqueued (the queue holds what it held),
  and the session is left closed, the registry having been told to forget it.
\<close>

theorem SendBytes_nonstream:
  assumes "\<not> closed s" "\<not> chClosed (outgoingCh s)" "0 < cap (outgoingCh s)"
  shows "(length (buf (outgoingCh s)) < cap (outgoingCh s) \<longrightarrow>
            SendBytes False mode p s =
              Returns None (s\<lparr>outgoingCh := (outgoingCh s)\<lparr>buf := buf (outgoingCh s) @ [p]\<rparr>\<rparr>)) \<and>
         (cap (outgoingCh s) \<le> length (buf (outgoingCh s)) \<longrightarrow>
            (\<exists>s'. SendBytes False mode p s = Returns (Some ''outgoing queue full'') s' \<and>
                  closed s' \<and> buf (outgoingCh s') = buf (outgoingCh s) \<and>
                  removed (trace s') = removed (trace s) @ [id_uuid s]))"
proof (intro conjI impI)
  assume "length (buf (outgoingCh s)) < cap (outgoingCh s)"
  with assms show "SendBytes False mode p s =
      Returns None (s\<lparr>outgoingCh := (outgoingCh s)\<lparr>buf := buf (outgoingCh s) @ [p]\<rparr>\<rparr>)"
    by (simp add: SendBytes_def chan_full_def chan_push_def)
next
  assume full: "cap (outgoingCh s) \<le> length (buf (outgoingCh s))"
  let ?s0 = "emit (Log ''Could not write message, session outgoing queue full'') s"
  have "\<not> closed ?s0" "\<not> chClosed (outgoingCh ?s0)"
    using assms by (simp_all add: emit_def)
  then obtain s' where s': "Close ?s0 = Returns () s'" "closed s'"
    "removed (trace s') = removed (trace ?s0) @ [id_uuid ?s0]"
    "buf (outgoingCh s') = buf (outgoingCh ?s0)"
    using Close_open_facts by blast
  have "SendBytes False mode p s = Returns (Some ''outgoing queue full'') s'"
    using assms full s'(1) by (simp add: SendBytes_def chan_full_def)
  moreover have "removed (trace s') = removed (trace s) @ [id_uuid s]"
    using s'(3) by (simp add: emit_def removed_append)
  moreover have "buf (outgoingCh s') = buf (outgoingCh s)"
    using s'(4) by (simp add: emit_def)
  ultimately show "\<exists>s'. SendBytes False mode p s = Returns (Some ''outgoing queue full'') s' \<and>
      closed s' \<and> buf (outgoingCh s') = buf (outgoingCh s) \<and>
      removed (trace s') = removed (trace s) @ [id_uuid s]"
    using s'(2) by blast
qed

theorem SendBytes_nonstream_witness:
  "\<not> closed test_full_session \<and> \<not> chClosed (outgoingCh test_full_session) \<and>
   0 < cap (outgoingCh test_full_session) \<and>
   cap (outgoingCh test_full_session) \<le> length (buf (outgoingCh test_full_session)) \<and>
   (\<exists>s'. SendBytes False 0 [3] test_full_session = Returns (Some ''outgoing queue full'') s' \<and>
      closed s' \<and> buf (outgoingCh s') = [[1], [2]] \<and> removed (trace s') = [7]) \<and>
   \<not> closed test_session \<and> \<not> chClosed (outgoingCh test_session) \<and>
   0 < cap (outgoingCh test_session) \<and>
   length (buf (outgoingCh test_session)) < cap (outgoingCh test_session) \<and>
   SendBytes False 0 [3] test_session =
     Returns None (test_session\<lparr>outgoingCh := \<lparr>buf = [[3]], cap = 2, chClosed = False\<rparr>\<rparr>)"
proof -
  have f: "\<not> closed test_full_session" "\<not> chClosed (outgoingCh test_full_session)"
    "cap (outgoingCh test_full_session) \<le> length (buf (outgoingCh test_full_session))"
    "0 < cap (outgoingCh test_full_session)"
    by (simp_all add: test_full_session_def test_session_def)
  have e: "\<not> closed test_session" "\<not> chClosed (outgoingCh test_session)"
    "length (buf (outgoingCh test_session)) < cap (outgoingCh test_session)"
    "0 < cap (outgoingCh test_session)"
    by (simp_all add: test_session_def)
  from SendBytes_nonstream [OF f(1,2,4), of 0 "[3]"] f(3)
  have "\<exists>s'. SendBytes False 0 [3] test_full_session = Returns (Some ''outgoing queue full'') s' \<and>
      closed s' \<and> buf (outgoingCh s') = buf (outgoingCh test_full_session) \<and>
      removed (trace s') = removed (trace test_full_session) @ [id_uuid test_full_session]"
    by blast
  then have F: "\<exists>s'. SendBytes False 0 [3] test_full_session =
      Returns (Some ''outgoing queue full'') s' \<and>
      closed s' \<and> buf (outgoingCh s') = [[1], [2]] \<and> removed (trace s') = [7]"
    by (simp add: test_full_session_def test_session_def)
  from SendBytes_nonstream [OF e(1,2,4), of 0 "[3]"] e(3)
  have "SendBytes False 0 [3] test_session =
      Returns None (test_session\<lparr>outgoingCh :=
        (outgoingCh test_session)\<lparr>buf := buf (outgoingCh test_session) @ [[3]]\<rparr>\<rparr>)"
    by blast
  then have E: "SendBytes False 0 [3] test_session =
     Returns None (test_session\<lparr>outgoingCh := \<lparr>buf = [[3]], cap = 2, chClosed = False\<rparr>\<rparr>)"
    by (simp add: test_session_def)
  from f e F E show ?thesis
    by blast
qed

text \<open>
  C6. On an open session with a buffered queue (capacity 1 or more), \<open>SendBytes\<close>
  with \<open>isStream\<close> true never drops the payload and never answers an error. While the queue has a free slot it appends the
  payload and returns nil. On a full queue it blocks, the session unchanged; the writer's
  receive from a queue that was exactly full takes the oldest payload, and the send
  then appends its payload behind the remaining ones and returns nil.
\<close>

theorem SendBytes_stream:
  assumes "\<not> closed s" "\<not> chClosed (outgoingCh s)" "0 < cap (outgoingCh s)"
  shows "(length (buf (outgoingCh s)) < cap (outgoingCh s) \<longrightarrow>
            SendBytes True mode p s =
              Returns None (s\<lparr>outgoingCh := (outgoingCh s)\<lparr>buf := buf (outgoingCh s) @ [p]\<rparr>\<rparr>)) \<and>
         (cap (outgoingCh s) \<le> length (buf (outgoingCh s)) \<longrightarrow>
            SendBytes True mode p s = Blocks s) \<and>
         (length (buf (outgoingCh s)) = cap (outgoingCh s) \<longrightarrow>
            (\<exists>c'. chan_recv (outgoingCh s) = Some (hd (buf (outgoingCh s)), c') \<and>
               SendBytes True mode p (s\<lparr>outgoingCh := c'\<rparr>) =
                 Returns None (s\<lparr>outgoingCh := c'\<lparr>buf := tl (buf (outgoingCh s)) @ [p]\<rparr>\<rparr>))) \<and>
         (\<forall>e s'. SendBytes True mode p s \<noteq> Returns (Some e) s')"
proof (intro conjI impI allI)
  assume "length (buf (outgoingCh s)) < cap (outgoingCh s)"
  with assms show "SendBytes True mode p s =
      Returns None (s\<lparr>outgoingCh := (outgoingCh s)\<lparr>buf := buf (outgoingCh s) @ [p]\<rparr>\<rparr>)"
    by (simp add: SendBytes_def chan_full_def chan_push_def)
next
  assume "cap (outgoingCh s) \<le> length (buf (outgoingCh s))"
  with assms show "SendBytes True mode p s = Blocks s"
    by (simp add: SendBytes_def chan_full_def)
next
  assume len: "length (buf (outgoingCh s)) = cap (outgoingCh s)"
  with assms(3) obtain q ps where ps: "buf (outgoingCh s) = q # ps"
    by (cases "buf (outgoingCh s)") auto
  let ?c = "(outgoingCh s)\<lparr>buf := ps\<rparr>"
  have recv: "chan_recv (outgoingCh s) = Some (hd (buf (outgoingCh s)), ?c)"
    using ps by (simp add: chan_recv_def)
  from len ps have "\<not> chan_full ?c" "\<not> chClosed ?c"
    using assms(2) by (simp_all add: chan_full_def)
  with assms(1) ps have "SendBytes True mode p (s\<lparr>outgoingCh := ?c\<rparr>) =
      Returns None (s\<lparr>outgoingCh := ?c\<lparr>buf := tl (buf (outgoingCh s)) @ [p]\<rparr>\<rparr>)"
    by (simp add: SendBytes_def chan_push_def)
  with recv show "\<exists>c'. chan_recv (outgoingCh s) = Some (hd (buf (outgoingCh s)), c') \<and>
      SendBytes True mode p (s\<lparr>outgoingCh := c'\<rparr>) =
        Returns None (s\<lparr>outgoingCh := c'\<lparr>buf := tl (buf (outgoingCh s)) @ [p]\<rparr>\<rparr>)"
    by blast
next
  fix e s'
  show "SendBytes True mode p s \<noteq> Returns (Some e) s'"
    by (simp add: SendBytes_def)
qed

theorem SendBytes_stream_witness:
  "\<not> closed test_full_session \<and> \<not> chClosed (outgoingCh test_full_session) \<and>
   0 < cap (outgoingCh test_full_session) \<and>
   length (buf (outgoingCh test_full_session)) = cap (outgoingCh test_full_session) \<and>
   SendBytes True 0 [3] test_full_session = Blocks test_full_session \<and>
   chan_recv (outgoingCh test_full_session) =
     Some ([1], \<lparr>buf = [[2]], cap = 2, chClosed = False\<rparr>) \<and>
   SendBytes True 0 [3]
       (test_full_session\<lparr>outgoingCh := \<lparr>buf = [[2]], cap = 2, chClosed = False\<rparr>\<rparr>) =
     Returns None
       (test_full_session\<lparr>outgoingCh := \<lparr>buf = [[2], [3]], cap = 2, chClosed = False\<rparr>\<rparr>) \<and>
   \<not> closed test_session \<and> \<not> chClosed (outgoingCh test_session) \<and>
   0 < cap (outgoingCh test_session) \<and>
   length (buf (outgoingCh test_session)) < cap (outgoingCh test_session) \<and>
   SendBytes True 0 [3] test_session =
     Returns None (test_session\<lparr>outgoingCh := \<lparr>buf = [[3]], cap = 2, chClosed = False\<rparr>\<rparr>)"
proof -
  have f: "\<not> closed test_full_session" "\<not> chClosed (outgoingCh test_full_session)"
    "length (buf (outgoingCh test_full_session)) = cap (outgoingCh test_full_session)"
    "0 < cap (outgoingCh test_full_session)"
    by (simp_all add: test_full_session_def test_session_def)
  have r: "chan_recv (outgoingCh test_full_session) =
      Some ([1], \<lparr>buf = [[2]], cap = 2, chClosed = False\<rparr>)"
    by (simp add: chan_recv_def test_full_session_def test_session_def)
  have e: "\<not> closed test_session" "\<not> chClosed (outgoingCh test_session)"
    "length (buf (outgoingCh test_session)) < cap (outgoingCh test_session)"
    "0 < cap (outgoingCh test_session)"
    by (simp_all add: test_session_def)
  note F = SendBytes_stream [OF f(1,2,4), of 0 "[3]"]
  from F f(3) have B: "SendBytes True 0 [3] test_full_session = Blocks test_full_session"
    by simp
  from F f(3) obtain c' where
    c': "chan_recv (outgoingCh test_full_session) =
        Some (hd (buf (outgoingCh test_full_session)), c')"
    "SendBytes True 0 [3] (test_full_session\<lparr>outgoingCh := c'\<rparr>) =
      Returns None (test_full_session\<lparr>outgoingCh :=
        c'\<lparr>buf := tl (buf (outgoingCh test_full_session)) @ [[3]]\<rparr>\<rparr>)"
    by blast
  from c'(1) r have "c' = \<lparr>buf = [[2]], cap = 2, chClosed = False\<rparr>"
    by simp
  with c'(2) have "SendBytes True 0 [3]
       (test_full_session\<lparr>outgoingCh := \<lparr>buf = [[2]], cap = 2, chClosed = False\<rparr>\<rparr>) =
     Returns None (test_full_session\<lparr>outgoingCh := \<lparr>buf = [[2]], cap = 2, chClosed = False\<rparr>
        \<lparr>buf := tl (buf (outgoingCh test_full_session)) @ [[3]]\<rparr>\<rparr>)"
    by simp
  then have R: "SendBytes True 0 [3]
       (test_full_session\<lparr>outgoingCh := \<lparr>buf = [[2]], cap = 2, chClosed = False\<rparr>\<rparr>) =
     Returns None
       (test_full_session\<lparr>outgoingCh := \<lparr>buf = [[2], [3]], cap = 2, chClosed = False\<rparr>\<rparr>)"
    by (simp add: test_full_session_def test_session_def)
  from SendBytes_stream [OF e(1,2,4), of 0 "[3]"] e(3)
  have "SendBytes True 0 [3] test_session =
      Returns None (test_session\<lparr>outgoingCh :=
        (outgoingCh test_session)\<lparr>buf := buf (outgoingCh test_session) @ [[3]]\<rparr>\<rparr>)"
    by blast
  then have E: "SendBytes True 0 [3] test_session =
     Returns None (test_session\<lparr>outgoingCh := \<lparr>buf = [[3]], cap = 2, chClosed = False\<rparr>\<rparr>)"
    by (simp add: test_session_def)
  from f r e B R E show ?thesis
    by blast
qed

text \<open>
  C9. \<open>Send\<close> marshals before it looks at the closed flag. When the marshaller
  fails, \<open>Send\<close> returns that error whether the session is open or closed, and the
  session is as before but for the log line: nothing is enqueued, no field changes.
  On a closed session \<open>SendBytes\<close>, unlike \<open>Send\<close>, returns nil.
\<close>

theorem Send_marshal_error:
  assumes "jsonProtoMarshler s envelope = Inl err"
  shows "Send isStream mode envelope s =
           Returns (Some err)
             (s\<lparr>trace := trace s @ [LogErr ''Could not marshal envelope'' err]\<rparr>) \<and>
         (closed s \<longrightarrow> SendBytes isStream mode p s = Returns None s)"
  using assms by (simp add: Send_def emit_def SendBytes_def)

theorem Send_marshal_error_witness:
  "jsonProtoMarshler test_closed_session [] = Inl ''empty envelope'' \<and>
   closed test_closed_session \<and>
   Send False 0 [] test_closed_session =
     Returns (Some ''empty envelope'')
       (test_closed_session\<lparr>trace := [LogErr ''Could not marshal envelope'' ''empty envelope'']\<rparr>) \<and>
   SendBytes False 0 [] test_closed_session = Returns None test_closed_session"
proof -
  have h: "jsonProtoMarshler test_closed_session [] = Inl ''empty envelope''"
    by (simp add: test_closed_session_def test_session_def test_marshal_def)
  have c: "closed test_closed_session"
    by (simp add: test_closed_session_def)
  have t: "trace test_closed_session = []"
    by (simp add: test_closed_session_def test_session_def)
  from Send_marshal_error [OF h, of False 0 "[]"] c t h show ?thesis
    by simp
qed

subsection \<open>The read loop\<close>

text \<open>
  C7. The throttle of the read loop, for a counter between 1 and the configured count
  \<open>N\<close>. A frame read while the counter is 2 or more only takes the counter down by
  one: no re-arm is attempted. A frame read while the counter is 1 takes it to zero,
  restores it to \<open>N\<close> and calls \<open>resetPingTimer\<close>. When that call answers false the
  loop is left at once: the handler is not called for the frame and nothing more is
  read. On an open session with a free gate and a connection that accepts deadlines,
  with a handler that always goes on, reading the frames \<open>ds\<close> re-arms the timer
  \<open>(length ds + (N - c)) div N\<close> times, \<open>c\<close> the counter at the start: once per \<open>N\<close>
  frames, and \<open>length ds div N\<close> times from a fresh session, whose counter is \<open>N\<close>.
\<close>

theorem Consume_throttle:
  "(2 \<le> sint (receivedMsgDecrement s) \<longrightarrow>
      throttle s = Returns True (s\<lparr>receivedMsgDecrement := receivedMsgDecrement s - 1\<rparr>) \<and>
      sint (receivedMsgDecrement s - 1) = sint (receivedMsgDecrement s) - 1) \<and>
   (sint (receivedMsgDecrement s) = 1 \<longrightarrow>
      receivedMsgDecrement s - 1 = 0 \<and>
      throttle s =
        resetPingTimer (s\<lparr>receivedMsgDecrement := ReceivedMessageDecrementCount (config s)\<rparr>)) \<and>
   (throttle s = Returns False s1 \<longrightarrow>
      consume_loop h (Frame d # rest) s = Returns () s1) \<and>
   ((\<forall>s' e. h s' e) \<and> \<not> closed s \<and> pingTimerCas s = 1 \<and>
    setReadDeadlineErr (conn s) = None \<and>
    1 \<le> sint (receivedMsgDecrement s) \<and>
    sint (receivedMsgDecrement s) \<le> sint (ReceivedMessageDecrementCount (config s)) \<longrightarrow>
      (\<exists>s'. consume_loop h (map Frame ds) s = Blocks s' \<and> \<not> closed s' \<and>
         length (rearmed (trace s')) = length (rearmed (trace s)) +
           (length ds + (nat (sint (ReceivedMessageDecrementCount (config s))) -
                         nat (sint (receivedMsgDecrement s))))
             div nat (sint (ReceivedMessageDecrementCount (config s)))))"
proof (intro conjI impI)
  assume c: "2 \<le> sint (receivedMsgDecrement s)"
  then show dec: "sint (receivedMsgDecrement s - 1) = sint (receivedMsgDecrement s) - 1"
    by (intro sint_dec) simp
  with c show "throttle s =
      Returns True (s\<lparr>receivedMsgDecrement := receivedMsgDecrement s - 1\<rparr>)"
    by (simp add: throttle_skip)
next
  assume c: "sint (receivedMsgDecrement s) = 1"
  then have "sint (receivedMsgDecrement s) = sint (1 :: 64 word)"
    by simp
  then have one: "receivedMsgDecrement s = 1"
    by (simp only: signed_word_eqI)
  then show "receivedMsgDecrement s - 1 = 0"
    by simp
  from one show "throttle s =
      resetPingTimer (s\<lparr>receivedMsgDecrement := ReceivedMessageDecrementCount (config s)\<rparr>)"
    by (simp add: throttle_due)
next
  assume "throttle s = Returns False s1"
  then show "consume_loop h (Frame d # rest) s = Returns () s1"
    by simp
next
  assume a: "(\<forall>s' e. h s' e) \<and> \<not> closed s \<and> pingTimerCas s = 1 \<and>
    setReadDeadlineErr (conn s) = None \<and>
    1 \<le> sint (receivedMsgDecrement s) \<and>
    sint (receivedMsgDecrement s) \<le> sint (ReceivedMessageDecrementCount (config s))"
  then have h: "\<forall>s' e. h s' e"
    by blast
  from a show "\<exists>s'. consume_loop h (map Frame ds) s = Blocks s' \<and> \<not> closed s' \<and>
         length (rearmed (trace s')) = length (rearmed (trace s)) +
           (length ds + (nat (sint (ReceivedMessageDecrementCount (config s))) -
                         nat (sint (receivedMsgDecrement s))))
             div nat (sint (ReceivedMessageDecrementCount (config s)))"
    by (intro loop_rearm_count [OF h]) simp_all
qed

theorem Consume_throttle_witness:
  "2 \<le> sint (receivedMsgDecrement test_session) \<and>
   throttle test_session = Returns True (test_session\<lparr>receivedMsgDecrement := 1\<rparr>) \<and>
   sint (receivedMsgDecrement (test_session\<lparr>receivedMsgDecrement := 1\<rparr>)) = 1 \<and>
   throttle (test_session\<lparr>receivedMsgDecrement := 1\<rparr>) = resetPingTimer test_session \<and>
   throttle (test_closed_session\<lparr>receivedMsgDecrement := 1\<rparr>) =
     Returns False
       (test_closed_session\<lparr>trace := [GateCAS 1 0 True, GateCAS 0 1 True]\<rparr>) \<and>
   consume_loop test_handler [Frame [1], Frame [2]]
       (test_closed_session\<lparr>receivedMsgDecrement := 1\<rparr>) =
     Returns ()
       (test_closed_session\<lparr>trace := [GateCAS 1 0 True, GateCAS 0 1 True]\<rparr>) \<and>
   (\<forall>s' e. test_handler s' e) \<and> \<not> closed test_session \<and> pingTimerCas test_session = 1 \<and>
   setReadDeadlineErr (conn test_session) = None \<and>
   1 \<le> sint (receivedMsgDecrement test_session) \<and>
   sint (receivedMsgDecrement test_session) \<le>
     sint (ReceivedMessageDecrementCount (config test_session)) \<and>
   length (rearmed (trace (state_of
     (consume_loop test_handler (map Frame [[1], [2], [3], [4], [5]]) test_session)))) = 2"
proof -
  let ?one = "test_session\<lparr>receivedMsgDecrement := 1\<rparr>"
  let ?cl = "test_closed_session\<lparr>receivedMsgDecrement := 1\<rparr>"
  let ?cr = "test_closed_session\<lparr>trace := [GateCAS 1 0 True, GateCAS 0 1 True]\<rparr>"
  have a: "2 \<le> sint (receivedMsgDecrement test_session)"
    by (simp add: test_session_def)
  have b: "sint (receivedMsgDecrement ?one) = 1"
    by simp
  have restore: "?one\<lparr>receivedMsgDecrement := ReceivedMessageDecrementCount (config ?one)\<rparr> =
      test_session"
    by (simp add: test_session_def test_config_def)
  have restore_cl:
    "?cl\<lparr>receivedMsgDecrement := ReceivedMessageDecrementCount (config ?cl)\<rparr> =
      test_closed_session"
    by (simp add: test_closed_session_def test_session_def test_config_def)
  have c: "(\<forall>s' e. test_handler s' e) \<and> \<not> closed test_session \<and>
      pingTimerCas test_session = 1 \<and> setReadDeadlineErr (conn test_session) = None \<and>
      1 \<le> sint (receivedMsgDecrement test_session) \<and>
      sint (receivedMsgDecrement test_session) \<le>
        sint (ReceivedMessageDecrementCount (config test_session))"
    by (simp add: test_handler_def test_session_def test_conn_def test_config_def)
  from Consume_throttle [of test_session] a
  have "throttle test_session =
      Returns True (test_session\<lparr>receivedMsgDecrement := receivedMsgDecrement test_session - 1\<rparr>)"
    by blast
  then have A: "throttle test_session = Returns True ?one"
    by (simp add: test_session_def)
  from Consume_throttle [of ?one] b
  have "throttle ?one = resetPingTimer
      (?one\<lparr>receivedMsgDecrement := ReceivedMessageDecrementCount (config ?one)\<rparr>)"
    by blast
  then have B: "throttle ?one = resetPingTimer test_session"
    by (simp only: restore)
  have "sint (receivedMsgDecrement ?cl) = 1"
    by simp
  with Consume_throttle [of ?cl]
  have "throttle ?cl = resetPingTimer
      (?cl\<lparr>receivedMsgDecrement := ReceivedMessageDecrementCount (config ?cl)\<rparr>)"
    by blast
  then have "throttle ?cl = resetPingTimer test_closed_session"
    by (simp only: restore_cl)
  also have "\<dots> = Returns False ?cr"
    by (simp add: resetPingTimer_closed test_closed_session_def test_session_def)
  finally have C1: "throttle ?cl = Returns False ?cr" .
  with Consume_throttle [of ?cl ?cr test_handler "[1]" "[Frame [2]]"]
  have C2: "consume_loop test_handler [Frame [1], Frame [2]] ?cl = Returns () ?cr"
    by blast
  from Consume_throttle [of test_session _ test_handler _ _ "[[1], [2], [3], [4], [5]]"] c
  obtain s' where s': "consume_loop test_handler (map Frame [[1], [2], [3], [4], [5]])
        test_session = Blocks s'"
    "length (rearmed (trace s')) = length (rearmed (trace test_session)) +
           (length [[1], [2], [3], [4], [5 :: byte]] +
              (nat (sint (ReceivedMessageDecrementCount (config test_session))) -
               nat (sint (receivedMsgDecrement test_session))))
             div nat (sint (ReceivedMessageDecrementCount (config test_session)))"
    by blast
  from s'(2) have "length (rearmed (trace s')) = 2"
    by (simp add: test_session_def test_config_def)
  with s'(1) have D: "length (rearmed (trace (state_of
     (consume_loop test_handler (map Frame [[1], [2], [3], [4], [5]]) test_session)))) = 2"
    by simp
  from a b A B C1 C2 c D show ?thesis
    by blast
qed

text \<open>
  C1, as the code has it. A frame that fails to decode does not end the read loop, and
  it is not dropped either: the error is logged and the handler is called with the
  envelope that the failed decode left. On an open session whose connection accepts
  read deadlines, with a handler that goes on after both envelopes, one malformed
  frame followed by one well-formed frame gives exactly two handler calls, the first
  with the envelope left by the failed decode and the second with the decoded
  envelope; the one decode error is logged; and then the loop waits for the next
  frame with the session still open.
\<close>

theorem Consume_decode_failure:
  assumes "\<not> closed s" "setReadDeadlineErr (conn s) = None"
    and "jsonProtoUnmarshler s bad = (Some err, r0)"
    and "jsonProtoUnmarshler s good = (None, r1)"
    and "\<forall>s'. h s' r0" "\<forall>s'. h s' r1"
  shows "\<exists>s'. Consume h [Frame bad, Frame good] s = Blocks s' \<and> \<not> closed s' \<and>
           handled (trace s') = handled (trace s) @ [r0, r1] \<and>
           decode_logged (trace s') = decode_logged (trace s) @ [err]"
proof -
  let ?s0 = "emit GoProcessOutgoing (emit SetPongHandler
      (emit (SetReadDeadline (now (emit (SetReadLimit 4096) s) +
               sint (pongWaitTime (emit (SetReadLimit 4096) s))))
        (emit (SetReadLimit 4096) s)))"
  have s0: "\<not> closed ?s0" "setReadDeadlineErr (conn ?s0) = None"
    "jsonProtoUnmarshler ?s0 bad = (Some err, r0)"
    "jsonProtoUnmarshler ?s0 good = (None, r1)"
    "handled (trace ?s0) = handled (trace s)" "conn ?s0 = conn s"
    "jsonProtoUnmarshler ?s0 = jsonProtoUnmarshler s"
    "decode_logged (trace ?s0) = decode_logged (trace s)"
    using assms(1-4) by (simp_all add: emit_def handled_append decode_logged_append)
  have C: "Consume h [Frame bad, Frame good] s =
      (case consume_loop h [Frame bad, Frame good] ?s0 of
         Returns _ s3 \<Rightarrow> Close s3
       | Blocks s3 \<Rightarrow> Blocks s3
       | Panics s3 \<Rightarrow>
           (case Close s3 of
              Returns _ s4 \<Rightarrow> Panics s4
            | Blocks s4 \<Rightarrow> Blocks s4
            | Panics s4 \<Rightarrow> Panics s4))"
    using assms(2) by (simp add: Consume_def Let_def emit_def)
  from frame_step [of ?s0 bad "Some err" r0 h "[Frame good]", OF s0(1,2,3) assms(5)]
  obtain s1 where
    s1: "consume_loop h [Frame bad, Frame good] ?s0 = consume_loop h [Frame good] s1"
    "\<not> closed s1" "conn s1 = conn ?s0" "jsonProtoUnmarshler s1 = jsonProtoUnmarshler ?s0"
    "handled (trace s1) = handled (trace ?s0) @ [r0]"
    "decode_logged (trace s1) = decode_logged (trace ?s0) @ [err]"
    by auto
  have s1': "setReadDeadlineErr (conn s1) = None" "jsonProtoUnmarshler s1 good = (None, r1)"
    using s1(3,4) s0 by simp_all
  from frame_step [of s1 good None r1 h "[]", OF s1(2) s1'(1) s1'(2) assms(6)] obtain s2 where
    s2: "consume_loop h [Frame good] s1 = consume_loop h [] s2"
    "\<not> closed s2" "handled (trace s2) = handled (trace s1) @ [r1]"
    "decode_logged (trace s2) = decode_logged (trace s1)"
    by auto
  have "Consume h [Frame bad, Frame good] s = Blocks s2"
    unfolding C s1(1) s2(1) by simp
  moreover have "handled (trace s2) = handled (trace s) @ [r0, r1]"
    using s2(3) s1(5) s0(5) by simp
  moreover have "decode_logged (trace s2) = decode_logged (trace s) @ [err]"
    using s2(4) s1(6) s0(8) by simp
  ultimately show ?thesis
    using s2(2) by blast
qed

theorem Consume_decode_failure_witness:
  "\<not> closed test_session \<and> setReadDeadlineErr (conn test_session) = None \<and>
   jsonProtoUnmarshler test_session [] = (Some ''unexpected EOF'', []) \<and>
   jsonProtoUnmarshler test_session [123, 125] = (None, [123, 125]) \<and>
   (\<forall>s'. test_handler s' []) \<and> (\<forall>s'. test_handler s' [123, 125]) \<and>
   (\<exists>s'. Consume test_handler [Frame [], Frame [123, 125]] test_session = Blocks s' \<and>
      \<not> closed s' \<and> handled (trace s') = [[], [123, 125]] \<and>
      decode_logged (trace s') = [''unexpected EOF''])"
proof -
  have a: "\<not> closed test_session" "setReadDeadlineErr (conn test_session) = None"
    "jsonProtoUnmarshler test_session [] = (Some ''unexpected EOF'', [])"
    "jsonProtoUnmarshler test_session [123, 125] = (None, [123, 125])"
    by (simp_all add: test_session_def test_conn_def test_unmarshal_def)
  have b: "\<forall>s'. test_handler s' []" "\<forall>s'. test_handler s' [123, 125]"
    by (simp_all add: test_handler_def)
  have t: "handled (trace test_session) = []" "decode_logged (trace test_session) = []"
    by (simp_all add: test_session_def)
  from Consume_decode_failure [OF a b] t
  have "\<exists>s'. Consume test_handler [Frame [], Frame [123, 125]] test_session = Blocks s' \<and>
      \<not> closed s' \<and> handled (trace s') = [[], [123, 125]] \<and>
      decode_logged (trace s') = [''unexpected EOF'']"
    by simp
  with a b show ?thesis
    by blast
qed

text \<open>
  C1, as the claim states it, fails on the concrete session: the empty frame does not
  decode, the frame \<open>{}\<close> does, the loop goes on and waits for a third frame, and the
  handler has been called twice, first with the empty envelope of the failed decode.
\<close>

theorem Consume_decode_failure_counterexample:
  "fst (jsonProtoUnmarshler test_session []) \<noteq> None \<and>
   fst (jsonProtoUnmarshler test_session [123, 125]) = None \<and>
   Consume test_handler [Frame [], Frame [123, 125]] test_session =
     Blocks (state_of (Consume test_handler [Frame [], Frame [123, 125]] test_session)) \<and>
   handled (trace (state_of
     (Consume test_handler [Frame [], Frame [123, 125]] test_session))) = [[], [123, 125]] \<and>
   length (handled (trace (state_of
     (Consume test_handler [Frame [], Frame [123, 125]] test_session)))) \<noteq> 1"
  by (simp add: test_session_def test_unmarshal_def test_handler_def test_conn_def
      test_config_def Consume_def Let_def emit_def now_def throttle_def dispatch_def
      resetPingTimer_def gate_CAS_def stop_drain_reset_def timer_Stop_def timer_Reset_def)

end
